theory Spec2Isabelle
  imports Main "HOL-Library.Word" "HOL-Library.Sublist"
begin

unbundle bit_operations_syntax

section \<open>Strings, errors and classified failures\<close>

text \<open>
  The module under study is the bundling pipeline of the asset server:
  \<^verbatim>\<open>createHashFromContent\<close>, \<^verbatim>\<open>fetchFeeds\<close>, \<^verbatim>\<open>parseFeeds\<close>, \<^verbatim>\<open>bundleFeeds\<close>,
  \<^verbatim>\<open>upload\<close>, \<^verbatim>\<open>bundleAndUpload\<close>, \<^verbatim>\<open>parseBody\<close> and \<^verbatim>\<open>validateFeeds\<close>, with the
  schema \<^verbatim>\<open>ids\<close> of \<^verbatim>\<open>schemas.js\<close>.

  A JavaScript string is a \<open>string\<close>: a list of 8-bit characters, so the model covers
  the strings whose code units are below 256. An exception is a value: a function that
  can throw returns a sum, \<open>Inl\<close> what it throws.
\<close>

text \<open>\<^verbatim>\<open>s.includes(sub)\<close>: \<open>sub\<close> occurs in \<open>s\<close> as a contiguous run.\<close>

fun str_includes :: "string \<Rightarrow> string \<Rightarrow> bool" where
  "str_includes [] sub = (sub = [])"
| "str_includes (c # s) sub = (prefix sub (c # s) \<or> str_includes s sub)"

text \<open>
  The regular expression \<^verbatim>\<open>/File ".*json" not found/\<close> and its \<^verbatim>\<open>test\<close>. The dot of
  a JavaScript pattern matches every character but a line terminator (of the 8-bit
  characters: line feed and carriage return); the pattern is not anchored, so \<^verbatim>\<open>test\<close>
  tries every start position.
\<close>

definition line_terminator :: "char \<Rightarrow> bool" where
  "line_terminator c = (c = CHR 0x0A \<or> c = CHR 0x0D)"

text \<open>\<open>dotstar_then lit s\<close>: \<^verbatim>\<open>.*\<close> followed by the literal \<open>lit\<close> matches at the start of \<open>s\<close>.\<close>

fun dotstar_then :: "string \<Rightarrow> string \<Rightarrow> bool" where
  "dotstar_then lit [] = (lit = [])"
| "dotstar_then lit (c # s) =
     (prefix lit (c # s) \<or> (\<not> line_terminator c \<and> dotstar_then lit s))"

definition quote :: char where
  "quote = CHR 0x22"

fun json_not_found_test :: "string \<Rightarrow> bool" where
  "json_not_found_test [] = False"
| "json_not_found_test (c # s) =
     ((prefix (''File '' @ [quote]) (c # s)
        \<and> dotstar_then (''json'' @ [quote] @ '' not found'') (drop 6 (c # s)))
      \<or> json_not_found_test s)"

text \<open>
  A thrown JavaScript error: its class and its \<^verbatim>\<open>message\<close>. The classes are the ones
  the pipeline tells apart or creates. An error that a collaborator throws may be a
  Boom error already: \<open>IsBoom status e\<close> is the error \<open>e\<close> with \<^verbatim>\<open>isBoom\<close> set and the
  status code \<open>status\<close>; it has the class and the message of \<open>e\<close>.
\<close>

datatype js_error =
    Error string
  | TypeError string
  | SyntaxError string
  | ValidationError string
  | AssertionError string
  | IsBoom nat js_error

fun message :: "js_error \<Rightarrow> string" where
  "message (Error m) = m"
| "message (TypeError m) = m"
| "message (SyntaxError m) = m"
| "message (ValidationError m) = m"
| "message (AssertionError m) = m"
| "message (IsBoom status e) = message e"

fun is_TypeError :: "js_error \<Rightarrow> bool" where
  "is_TypeError (TypeError m) = True"
| "is_TypeError (IsBoom status e) = is_TypeError e"
| "is_TypeError e = False"

fun boom_status :: "js_error \<Rightarrow> nat option" where
  "boom_status (IsBoom status e) = Some status"
| "boom_status e = None"

text \<open>
  \<^verbatim>\<open>Boom.boomify(err, {statusCode, message})\<close> decorates the error it is given and
  returns it: the object that is thrown afterwards is the error itself, of the class it
  had. The record below is that object after the call: what the error was before (the
  field \<open>cause\<close>, class and message), its status code and its new message. The status
  code is the one given; when none is given it is the status the error has if it is a
  Boom error already, and 500 otherwise. The given message is put in front of the
  error's own message, with a colon between the two when the error had a message.
\<close>

record boom =
  statusCode :: nat
  boom_message :: string
  cause :: js_error

definition boomify :: "js_error \<Rightarrow> nat option \<Rightarrow> string \<Rightarrow> boom" where
  "boomify err status msg =
     \<lparr> statusCode =
         (case status of
            Some code \<Rightarrow> code
          | None \<Rightarrow> (case boom_status err of Some code \<Rightarrow> code | None \<Rightarrow> 500)),
       boom_message = msg @ (if message err = [] then [] else '': '' @ message err),
       cause = err \<rparr>"

section \<open>Retrying: p-retry\<close>

text \<open>
  \<^verbatim>\<open>pretry(input, {retries})\<close> calls \<open>input\<close> with the number of the attempt, from 1.
  What an attempt does is a \<open>settled\<close> value: it resolves, it throws an error, or it
  throws a \<^verbatim>\<open>pretry.AbortError\<close>, which carries the error to reject with.

  An abort stops at once and rejects with the carried error. A \<^verbatim>\<open>TypeError\<close> stops at
  once too. Any other error is recorded and the input is called again, while retries
  are left; when none is left p-retry rejects with the main error of the \<^verbatim>\<open>retry\<close>
  module: the recorded error whose message occurred most often, the last one among
  equals. The result is paired with the number of calls of \<open>input\<close> that were made.
\<close>

datatype 'a settled = Resolved 'a | Thrown js_error | Aborted js_error

fun mainError_loop :: "js_error list \<Rightarrow> js_error list \<Rightarrow> js_error \<Rightarrow> nat \<Rightarrow> js_error" where
  "mainError_loop seen [] mainError mainErrorCount = mainError"
| "mainError_loop seen (e # es) mainError mainErrorCount =
     (let count = Suc (count_list (map message seen) (message e))
      in if count \<ge> mainErrorCount
         then mainError_loop (seen @ [e]) es e count
         else mainError_loop (seen @ [e]) es mainError mainErrorCount)"

text \<open>
  In JavaScript the main error of no errors is \<^verbatim>\<open>null\<close>. p-retry asks for the main error
  after it recorded one, so the first equation below is never used by \<open>pretry\<close>.
\<close>

fun mainError :: "js_error list \<Rightarrow> js_error" where
  "mainError [] = Error []"
| "mainError (e # es) = mainError_loop [] (e # es) e 0"

fun pretry_from :: "(nat \<Rightarrow> 'a settled) \<Rightarrow> nat \<Rightarrow> nat \<Rightarrow> js_error list \<Rightarrow> (js_error + 'a) \<times> nat" where
  "pretry_from input attempt left errors =
     (case input attempt of
        Resolved v \<Rightarrow> (Inr v, attempt)
      | Aborted e \<Rightarrow> (Inl e, attempt)
      | Thrown e \<Rightarrow>
          if is_TypeError e then (Inl e, attempt)
          else (case left of
                  0 \<Rightarrow> (Inl (mainError (errors @ [e])), attempt)
                | Suc l \<Rightarrow> pretry_from input (Suc attempt) l (errors @ [e])))"

definition pretry :: "(nat \<Rightarrow> 'a settled) \<Rightarrow> nat \<Rightarrow> (js_error + 'a) \<times> nat" where
  "pretry input retries = pretry_from input 1 retries []"

section \<open>The collaborators: JSON, the bundlers, the Sink\<close>

text \<open>
  A JavaScript value, as \<^verbatim>\<open>JSON.parse\<close> produces it and as a request body carries it.
  Numbers are integers here; no claim depends on a fraction.
\<close>

datatype js_value =
    JUndefined
  | JNull
  | JBool bool
  | JNumber int
  | JString string
  | JArray "js_value list"
  | JObject "(string \<times> js_value) list"

text \<open>The failures of the Joi schema \<^verbatim>\<open>ids\<close>, by Joi's error types.\<close>

datatype joi_failure =
    any_required
  | array_base
  | array_includesOne nat
  | array_includesRequiredUnknowns
  | array_min
  | array_max

text \<open>
  What the module calls and does not define is a parameter of the model:
  \<^verbatim>\<open>JSON.parse\<close>, the two bundlers \<^verbatim>\<open>@asset-pipe/js-reader\<close> and
  \<^verbatim>\<open>@asset-pipe/css-reader\<close>, and the wording of Joi's error messages. What
  \<^verbatim>\<open>JSON.parse\<close> throws is a \<^verbatim>\<open>SyntaxError\<close>: \<open>JSON_parse p text = Inl m\<close> says that it
  throws one with the message \<open>m\<close>. A bundler may throw any error.
\<close>

record platform =
  JSON_parse :: "string \<Rightarrow> string + js_value"
  bundleJS :: "js_value list \<Rightarrow> js_error + string"
  bundleCSS :: "js_value list \<Rightarrow> js_error + string"
  joi_message :: "joi_failure \<Rightarrow> string"

text \<open>
  Modelled from the spec: the Sink, a key to bytes store with \<^verbatim>\<open>get(key)\<close>, which fails
  with a not-found error when the key is absent, and \<^verbatim>\<open>set(key, bytes)\<close>, which creates
  or overwrites. The implementations are packages of their own. A sink is the objects
  it stores, the error it throws for a key it does not have, and the faults of its
  calls: \<open>get_fault sink key n\<close> is the error, if any, of the \<open>n\<close>-th attempt to read
  \<open>key\<close>, and \<open>set_fault sink key n\<close> that of the \<open>n\<close>-th attempt to write it. A read
  leaves the objects as they are, and so does a write that fails.
\<close>

record sink =
  objects :: "string \<rightharpoonup> string"
  absent :: "string \<Rightarrow> js_error"
  get_fault :: "string \<Rightarrow> nat \<Rightarrow> js_error option"
  set_fault :: "string \<Rightarrow> nat \<Rightarrow> js_error option"

definition sink_get :: "sink \<Rightarrow> string \<Rightarrow> nat \<Rightarrow> js_error + string" where
  "sink_get sink key attempt =
     (case get_fault sink key attempt of
        Some err \<Rightarrow> Inl err
      | None \<Rightarrow> (case objects sink key of None \<Rightarrow> Inl (absent sink key) | Some bytes \<Rightarrow> Inr bytes))"

definition sink_set :: "sink \<Rightarrow> string \<Rightarrow> string \<Rightarrow> nat \<Rightarrow> (js_error + unit) \<times> sink" where
  "sink_set sink key bytes attempt =
     (case set_fault sink key attempt of
        Some err \<Rightarrow> (Inl err, sink)
      | None \<Rightarrow> (Inr (), sink\<lparr>objects := (objects sink)(key \<mapsto> bytes)\<rparr>))"

text \<open>
  The calls an operation makes to its collaborators, in a trace. The fetches of the ids
  of one list run concurrently, each in its own retry loop, and p-retry waits a second
  or more before it calls again; the trace lists their reads round by round: the first
  attempt of every id in the order of the list, then the second attempts, and so on.
\<close>

datatype call =
    SinkGet string
  | SinkSet string string
  | JSONparse string
  | BundleCSS "js_value list"
  | BundleJS "js_value list"

section \<open>The module\<close>

subsection \<open>createHashFromContent\<close>

text \<open>
  \<^verbatim>\<open>crypto.createHash('sha256')\<close>, \<^verbatim>\<open>update(content, 'utf8')\<close>, \<^verbatim>\<open>digest('hex')\<close>: the
  SHA-256 of FIPS 180-4 over the UTF-8 bytes of the content, in lowercase hexadecimal.
\<close>

type_synonym u32 = "32 word"
type_synonym byte = "8 word"
type_synonym sha_state = "u32 \<times> u32 \<times> u32 \<times> u32 \<times> u32 \<times> u32 \<times> u32 \<times> u32"

definition rotr :: "nat \<Rightarrow> u32 \<Rightarrow> u32" where
  "rotr n x = word_rotr n x"

definition Ch :: "u32 \<Rightarrow> u32 \<Rightarrow> u32 \<Rightarrow> u32" where
  "Ch x y z = (x AND y) XOR (NOT x AND z)"

definition Maj :: "u32 \<Rightarrow> u32 \<Rightarrow> u32 \<Rightarrow> u32" where
  "Maj x y z = (x AND y) XOR (x AND z) XOR (y AND z)"

definition Sigma0 :: "u32 \<Rightarrow> u32" where
  "Sigma0 x = rotr 2 x XOR rotr 13 x XOR rotr 22 x"

definition Sigma1 :: "u32 \<Rightarrow> u32" where
  "Sigma1 x = rotr 6 x XOR rotr 11 x XOR rotr 25 x"

definition sigma0 :: "u32 \<Rightarrow> u32" where
  "sigma0 x = rotr 7 x XOR rotr 18 x XOR drop_bit 3 x"

definition sigma1 :: "u32 \<Rightarrow> u32" where
  "sigma1 x = rotr 17 x XOR rotr 19 x XOR drop_bit 10 x"

definition sha256_K :: "u32 list" where
  "sha256_K =
     [0x428a2f98, 0x71374491, 0xb5c0fbcf, 0xe9b5dba5, 0x3956c25b, 0x59f111f1, 0x923f82a4, 0xab1c5ed5] @
     [0xd807aa98, 0x12835b01, 0x243185be, 0x550c7dc3, 0x72be5d74, 0x80deb1fe, 0x9bdc06a7, 0xc19bf174] @
     [0xe49b69c1, 0xefbe4786, 0x0fc19dc6, 0x240ca1cc, 0x2de92c6f, 0x4a7484aa, 0x5cb0a9dc, 0x76f988da] @
     [0x983e5152, 0xa831c66d, 0xb00327c8, 0xbf597fc7, 0xc6e00bf3, 0xd5a79147, 0x06ca6351, 0x14292967] @
     [0x27b70a85, 0x2e1b2138, 0x4d2c6dfc, 0x53380d13, 0x650a7354, 0x766a0abb, 0x81c2c92e, 0x92722c85] @
     [0xa2bfe8a1, 0xa81a664b, 0xc24b8b70, 0xc76c51a3, 0xd192e819, 0xd6990624, 0xf40e3585, 0x106aa070] @
     [0x19a4c116, 0x1e376c08, 0x2748774c, 0x34b0bcb5, 0x391c0cb3, 0x4ed8aa4a, 0x5b9cca4f, 0x682e6ff3] @
     [0x748f82ee, 0x78a5636f, 0x84c87814, 0x8cc70208, 0x90befffa, 0xa4506ceb, 0xbef9a3f7, 0xc67178f2]"

definition sha256_H0 :: sha_state where
  "sha256_H0 =
     (0x6a09e667, 0xbb67ae85, 0x3c6ef372, 0xa54ff53a, 0x510e527f, 0x9b05688c, 0x1f83d9ab, 0x5be0cd19)"

definition be64 :: "nat \<Rightarrow> byte list" where
  "be64 n = (let w = of_nat n :: 64 word in map (\<lambda>i. ucast (drop_bit (8 * (7 - i)) w)) [0..<8])"

definition pad :: "byte list \<Rightarrow> byte list" where
  "pad msg =
     msg @ [0x80] @ replicate ((119 - length msg mod 64) mod 64) 0 @ be64 (8 * length msg)"

definition be32 :: "byte list \<Rightarrow> u32" where
  "be32 bs = foldl (\<lambda>w b. push_bit 8 w OR ucast b) 0 bs"

definition block_words :: "byte list \<Rightarrow> u32 list" where
  "block_words block = map (\<lambda>j. be32 (take 4 (drop (4 * j) block))) [0..<16]"

definition blocks :: "byte list \<Rightarrow> byte list list" where
  "blocks bs = map (\<lambda>i. take 64 (drop (64 * i) bs)) [0..<length bs div 64]"

definition schedule :: "u32 list \<Rightarrow> u32 list" where
  "schedule w16 =
     fold (\<lambda>i w. w @ [sigma1 (w ! (i - 2)) + w ! (i - 7) + sigma0 (w ! (i - 15)) + w ! (i - 16)])
       [16..<64] w16"

fun round_step :: "u32 list \<Rightarrow> nat \<Rightarrow> sha_state \<Rightarrow> sha_state" where
  "round_step w i (a, b, c, d, e, f, g, h) =
     (let t1 = h + Sigma1 e + Ch e f g + sha256_K ! i + w ! i;
          t2 = Sigma0 a + Maj a b c
      in (t1 + t2, a, b, c, d + t1, e, f, g))"

fun add_state :: "sha_state \<Rightarrow> sha_state \<Rightarrow> sha_state" where
  "add_state (a, b, c, d, e, f, g, h) (a', b', c', d', e', f', g', h') =
     (a + a', b + b', c + c', d + d', e + e', f + f', g + g', h + h')"

definition compress :: "byte list \<Rightarrow> sha_state \<Rightarrow> sha_state" where
  "compress block st =
     add_state st (fold (round_step (schedule (block_words block))) [0..<64] st)"

definition sha256 :: "byte list \<Rightarrow> sha_state" where
  "sha256 msg = fold compress (blocks (pad msg)) sha256_H0"

definition hexdigit :: "nat \<Rightarrow> char" where
  "hexdigit n = ''0123456789abcdef'' ! (n mod 16)"

definition hex32 :: "u32 \<Rightarrow> string" where
  "hex32 w = map (\<lambda>i. hexdigit (unat (drop_bit (4 * (7 - i)) w AND 15))) [0..<8]"

fun hex_digest :: "sha_state \<Rightarrow> string" where
  "hex_digest (a, b, c, d, e, f, g, h) = concat (map hex32 [a, b, c, d, e, f, g, h])"

definition utf8 :: "string \<Rightarrow> byte list" where
  "utf8 s =
     concat (map (\<lambda>c. let n = of_char c :: nat
                       in if n < 128 then [of_nat n]
                          else [of_nat (192 + n div 64), of_nat (128 + n mod 64)]) s)"

definition createHashFromContent :: "string \<Rightarrow> string" where
  "createHashFromContent content = hex_digest (sha256 (utf8 content))"

subsection \<open>fetchFeeds\<close>

text \<open>
  \<open>run sink file\<close> is the function \<^verbatim>\<open>run(file)\<close> that p-retry calls: one read of the
  sink. An error whose message includes \<^verbatim>\<open>No file with name\<close> becomes an abort with a
  new error, \<^verbatim>\<open>File "<file>" not found.\<close>; any other error is thrown on as it is.
\<close>

definition run :: "sink \<Rightarrow> string \<Rightarrow> nat \<Rightarrow> string settled" where
  "run sink file attempt =
     (case sink_get sink file attempt of
        Inr bytes \<Rightarrow> Resolved bytes
      | Inl err \<Rightarrow>
          if str_includes (message err) ''No file with name''
          then Aborted (Error (''File '' @ [quote] @ file @ [quote] @ '' not found.''))
          else Thrown err)"

text \<open>
  \<^verbatim>\<open>Promise.all\<close> resolves with the values in the order of the list when every promise
  resolves, and rejects with the first rejection otherwise. The rejections of a list of
  settled retry loops, each with the number of attempts it took:
\<close>

fun rejections :: "((js_error + 'a) \<times> nat) list \<Rightarrow> (js_error \<times> nat) list" where
  "rejections [] = []"
| "rejections ((Inl e, n) # ps) = (e, n) # rejections ps"
| "rejections ((Inr v, n) # ps) = rejections ps"

fun resolutions :: "((js_error + 'a) \<times> nat) list \<Rightarrow> 'a list" where
  "resolutions [] = []"
| "resolutions ((Inl e, n) # ps) = resolutions ps"
| "resolutions ((Inr v, n) # ps) = v # resolutions ps"

text \<open>
  The first rejection in time: the loops run in step (see the trace), so it is the one
  that took the fewest attempts, and the earlier in the list among equals.
\<close>

fun first_rejection :: "js_error \<times> nat \<Rightarrow> (js_error \<times> nat) list \<Rightarrow> js_error" where
  "first_rejection (e, n) [] = e"
| "first_rejection (e, n) ((e', n') # rs) =
     (if n' < n then first_rejection (e', n') rs else first_rejection (e, n) rs)"

definition get_calls :: "string list \<Rightarrow> nat list \<Rightarrow> nat \<Rightarrow> call list" where
  "get_calls ids attempts retries =
     concat (map (\<lambda>round. map (\<lambda>(file, n). SinkGet file)
                              (filter (\<lambda>(file, n). round \<le> n) (zip ids attempts)))
               [1..<retries + 2])"

definition fetchFeeds :: "sink \<Rightarrow> string list \<Rightarrow> nat \<Rightarrow> (boom + string list) \<times> call list" where
  "fetchFeeds sink ids retries =
     (let settled = map (\<lambda>file. pretry (run sink file) retries) ids;
          calls = get_calls ids (map snd settled) retries
      in case rejections settled of
           [] \<Rightarrow> (Inr (resolutions settled), calls)
         | r # rs \<Rightarrow>
             (let err = first_rejection r rs
              in (Inl (boomify err
                         (Some (if json_not_found_test (message err) then 404 else 500))
                         ''Unable to fetch 1 or more feeds from storage.''),
                  calls)))"

subsection \<open>parseFeeds\<close>

text \<open>\<^verbatim>\<open>rawFeeds.map(JSON.parse)\<close> parses in order and stops at the first text that throws.\<close>

fun map_JSON_parse :: "platform \<Rightarrow> string list \<Rightarrow> (js_error + js_value list) \<times> call list" where
  "map_JSON_parse p [] = (Inr [], [])"
| "map_JSON_parse p (raw # rest) =
     (case JSON_parse p raw of
        Inl m \<Rightarrow> (Inl (SyntaxError m), [JSONparse raw])
      | Inr v \<Rightarrow>
          (case map_JSON_parse p rest of
             (Inl err, calls) \<Rightarrow> (Inl err, JSONparse raw # calls)
           | (Inr vs, calls) \<Rightarrow> (Inr (v # vs), JSONparse raw # calls)))"

definition parseFeeds :: "platform \<Rightarrow> string list \<Rightarrow> (boom + js_value list) \<times> call list" where
  "parseFeeds p rawFeeds =
     (case map_JSON_parse p rawFeeds of
        (Inl err, calls) \<Rightarrow>
          (Inl (boomify err None ''Unable to parse 1 or more feeds as JSON.''), calls)
      | (Inr feeds, calls) \<Rightarrow> (Inr feeds, calls))"

subsection \<open>bundleFeeds\<close>

definition bundleFeeds :: "platform \<Rightarrow> js_value list \<Rightarrow> string \<Rightarrow> (boom + string) \<times> call list" where
  "bundleFeeds p feeds type =
     (if type = ''css''
      then (case bundleCSS p feeds of
              Inl err \<Rightarrow> (Inl (boomify err None ''Unable to bundle feeds as CSS.''), [BundleCSS feeds])
            | Inr content \<Rightarrow> (Inr content, [BundleCSS feeds]))
      else (case bundleJS p feeds of
              Inl err \<Rightarrow> (Inl (boomify err None ''Unable to bundle feeds as JS.''), [BundleJS feeds])
            | Inr content \<Rightarrow> (Inr content, [BundleJS feeds])))"

subsection \<open>upload\<close>

text \<open>
  The attempts of one upload follow each other, and the ones that fail leave the sink
  as it was: the sink after the upload is the sink after its last attempt.
\<close>

definition set_attempt :: "sink \<Rightarrow> string \<Rightarrow> string \<Rightarrow> nat \<Rightarrow> unit settled" where
  "set_attempt sink fileName content attempt =
     (case fst (sink_set sink fileName content attempt) of
        Inl err \<Rightarrow> Thrown err
      | Inr u \<Rightarrow> Resolved u)"

definition upload :: "sink \<Rightarrow> string \<Rightarrow> string \<Rightarrow> nat \<Rightarrow> (boom + unit) \<times> sink \<times> call list" where
  "upload sink fileName content retries =
     (case pretry (set_attempt sink fileName content) retries of
        (result, n) \<Rightarrow>
          (let sink' = snd (sink_set sink fileName content n);
               calls = replicate n (SinkSet fileName content)
           in case result of
                Inl err \<Rightarrow>
                  (Inl (boomify err None
                          (''Unable to upload bundle with fileName '' @ [quote] @ fileName @ [quote]
                             @ '' to storage.'')),
                   sink', calls)
              | Inr u \<Rightarrow> (Inr (), sink', calls)))"

subsection \<open>bundleAndUpload\<close>

text \<open>
  The argument \<^verbatim>\<open>feedIds\<close> is an array of ids or some other value; of a value that is
  not an array the model keeps how it prints in the message of the assertion. What the
  function throws is the assertion's error or a classified failure of one of its
  steps, which it passes on as it is.
\<close>

datatype feed_ids = NotArray string | IdArray "string list"

datatype failure = Raw js_error | Classified boom

record bundle_result =
  "file" :: string
  uri :: string

definition bundleAndUpload ::
  "platform \<Rightarrow> sink \<Rightarrow> string \<Rightarrow> feed_ids \<Rightarrow> string \<Rightarrow> (failure + bundle_result) \<times> sink \<times> call list" where
  "bundleAndUpload p sink type feedIds baseUri =
     (case feedIds of
        NotArray shown \<Rightarrow>
          (Inl (Raw (AssertionError (''Expected at least 1 feed id, but got '' @ shown))), sink, [])
      | IdArray ids \<Rightarrow>
          if ids = []
          then (Inl (Raw (AssertionError ''Expected at least 1 feed id, but got '')), sink, [])
          else
            (case fetchFeeds sink ids 3 of
               (Inl b, c1) \<Rightarrow> (Inl (Classified b), sink, c1)
             | (Inr fetchedFeeds, c1) \<Rightarrow>
                 (case parseFeeds p fetchedFeeds of
                    (Inl b, c2) \<Rightarrow> (Inl (Classified b), sink, c1 @ c2)
                  | (Inr parsedFeeds, c2) \<Rightarrow>
                      (case bundleFeeds p parsedFeeds type of
                         (Inl b, c3) \<Rightarrow> (Inl (Classified b), sink, c1 @ c2 @ c3)
                       | (Inr content, c3) \<Rightarrow>
                           (let fileName = createHashFromContent content @ ''.'' @ type
                            in case upload sink fileName content 3 of
                                 (Inl b, sink', c4) \<Rightarrow>
                                   (Inl (Classified b), sink', c1 @ c2 @ c3 @ c4)
                               | (Inr u, sink', c4) \<Rightarrow>
                                   (Inr \<lparr> file = fileName, uri = baseUri @ fileName \<rparr>,
                                    sink', c1 @ c2 @ c3 @ c4))))))"

subsection \<open>parseBody and validateFeeds\<close>

text \<open>
  \<^verbatim>\<open>body/json\<close> reads the text of the request body and gives it to \<^verbatim>\<open>JSON.parse\<close>;
  the request is its body text here.
\<close>

definition parseBody :: "platform \<Rightarrow> string \<Rightarrow> boom + js_value" where
  "parseBody p req =
     (case JSON_parse p req of
        Inl m \<Rightarrow> Inl (boomify (SyntaxError m) (Some 400) ''No feed data given in POST-body.'')
      | Inr v \<Rightarrow> Inr v)"

text \<open>
  The schema \<^verbatim>\<open>ids\<close>:
  \<^verbatim>\<open>Joi.array().required().items(Joi.string().required()).sparse().min(1).max(100)\<close>.
  Joi stops at the first failure. It checks the items before the length; an item passes
  when it is a string that is not empty (\<^verbatim>\<open>Joi.string()\<close> converts nothing to a string
  and refuses the empty one). Joi reads a string as the array it denotes when
  \<^verbatim>\<open>JSON.parse\<close> makes an array of it.
\<close>

fun item_ok :: "js_value \<Rightarrow> bool" where
  "item_ok (JString s) = (s \<noteq> [])"
| "item_ok v = False"

fun first_bad_item :: "js_value list \<Rightarrow> nat \<Rightarrow> nat option" where
  "first_bad_item [] pos = None"
| "first_bad_item (v # vs) pos = (if item_ok v then first_bad_item vs (Suc pos) else Some pos)"

fun string_of :: "js_value \<Rightarrow> string" where
  "string_of (JString s) = s"
| "string_of v = []"

definition validate_items :: "js_value list \<Rightarrow> joi_failure + string list" where
  "validate_items items =
     (case first_bad_item items 0 of
        Some pos \<Rightarrow> Inl (array_includesOne pos)
      | None \<Rightarrow>
          if items = [] then Inl array_includesRequiredUnknowns
          else if length items < 1 then Inl array_min
          else if length items > 100 then Inl array_max
          else Inr (map string_of items))"

fun schemas_ids_validate :: "platform \<Rightarrow> js_value \<Rightarrow> joi_failure + string list" where
  "schemas_ids_validate p JUndefined = Inl any_required"
| "schemas_ids_validate p (JArray items) = validate_items items"
| "schemas_ids_validate p (JString s) =
     (case JSON_parse p s of
        Inr (JArray items) \<Rightarrow> validate_items items
      | _ \<Rightarrow> Inl array_base)"
| "schemas_ids_validate p v = Inl array_base"

definition validateFeeds :: "platform \<Rightarrow> js_value \<Rightarrow> boom + string list" where
  "validateFeeds p feeds =
     (case schemas_ids_validate p feeds of
        Inl failure \<Rightarrow>
          Inl (boomify (ValidationError (joi_message p failure)) (Some 400)
                 ''Invalid feed data given in POST-body.'')
      | Inr v \<Rightarrow> Inr v)"

section \<open>Example collaborators\<close>

text \<open>
  A sink that keeps its objects in memory and never faults; its error for an absent key
  reads \<^verbatim>\<open>No file with name "<key>"\<close>. And a sink whose first \<open>k\<close> attempts to read or
  to write a key fail with a given error.
\<close>

definition memory_sink :: "(string \<times> string) list \<Rightarrow> sink" where
  "memory_sink stored =
     \<lparr> objects = map_of stored,
       absent = (\<lambda>key. Error (''No file with name '' @ [quote] @ key @ [quote])),
       get_fault = (\<lambda>key attempt. None),
       set_fault = (\<lambda>key attempt. None) \<rparr>"

definition failing_first :: "nat \<Rightarrow> js_error \<Rightarrow> sink \<Rightarrow> sink" where
  "failing_first k err sink =
     sink\<lparr> get_fault := (\<lambda>key attempt. if attempt \<le> k then Some err else None),
           set_fault := (\<lambda>key attempt. if attempt \<le> k then Some err else None) \<rparr>"

text \<open>
  A sink with no object that words the absence of a key as a file system does.
\<close>

definition enoent_sink :: sink where
  "enoent_sink = (memory_sink [])\<lparr>absent := \<lambda>key. Error ''ENOENT: no such file or directory''\<rparr>"

text \<open>
  A platform for the examples. Its \<^verbatim>\<open>JSON.parse\<close> knows the two texts \<^verbatim>\<open>[1]\<close> and
  \<^verbatim>\<open>[2]\<close> and throws for every other text, as \<^verbatim>\<open>JSON.parse\<close> does for the other texts
  the examples give it (an opening brace alone, the empty text); its JS bundler makes
  the bundle \<^verbatim>\<open>abc\<close> of any feeds and its CSS bundler throws.
\<close>

definition sample_platform :: platform where
  "sample_platform =
     \<lparr> JSON_parse = (\<lambda>text. if text = ''[1]'' then Inr (JArray [JNumber 1])
                           else if text = ''[2]'' then Inr (JArray [JNumber 2])
                           else Inl ''Unexpected end of JSON input''),
       bundleJS = (\<lambda>feeds. Inr ''abc''),
       bundleCSS = (\<lambda>feeds. Inl (SyntaxError ''Unknown word'')),
       joi_message = (\<lambda>failure. ''value is not a list of ids'') \<rparr>"

text \<open>
  The message schedule of the one-block message \<^verbatim>\<open>abc\<close>, the example of FIPS 180-4,
  for the check of the digest below.
\<close>

definition abc_schedule :: "u32 list" where
  "abc_schedule =
     [1633837952, 0, 0, 0, 0, 0, 0, 0, 0, 0, 0, 0, 0, 0, 0, 24, 1633837952, 983040,
       2108187653, 1610613702, 1050508152, 25426944, 316456923, 3806512014, 3357629466,
       3073800610, 3854317833, 845560923, 2636160359, 3968280267, 1881225380, 3552024379,
       2482346367, 996719219, 2952069057, 4043988066, 176896406, 1924104970, 2483675966,
       610538786, 2672279444, 4037431130, 1042573945, 657669027, 206005234, 2215296807,
       2049510749, 106709978, 4215179723, 3430291419, 3118885940, 2845390439, 2226839261,
       3256115900, 344409900, 2987358873, 4015503821, 3957764664, 2682456414, 2025622859,
       2755645205, 1720397816, 4004225740, 313650667]"

section \<open>The retry loop\<close>

lemma pretry_from_bounds:
  "pretry_from input k left errs = (r, a) \<Longrightarrow> k \<le> a \<and> a \<le> k + left"
proof (induction left arbitrary: k errs)
  case 0
  then show ?case by (auto split: settled.splits if_splits)
next
  case (Suc left)
  show ?case
  proof (cases "input k")
    case (Thrown e)
    show ?thesis
    proof (cases "is_TypeError e")
      case True
      with Thrown Suc.prems show ?thesis by simp
    next
      case False
      with Thrown Suc.prems have "pretry_from input (Suc k) left (errs @ [e]) = (r, a)" by simp
      from Suc.IH [OF this] show ?thesis by simp
    qed
  qed (use Suc.prems in auto)
qed

lemma pretry_from_before:
  "pretry_from input k left errs = (r, a) \<Longrightarrow> k \<le> n \<Longrightarrow> n < a
     \<Longrightarrow> \<exists>e. input n = Thrown e \<and> \<not> is_TypeError e"
proof (induction left arbitrary: k errs)
  case 0
  then show ?case by (auto split: settled.splits if_splits)
next
  case (Suc left)
  show ?case
  proof (cases "input k")
    case (Thrown e)
    show ?thesis
    proof (cases "is_TypeError e")
      case True
      with Thrown Suc.prems show ?thesis by simp
    next
      case False
      with Thrown Suc.prems have *: "pretry_from input (Suc k) left (errs @ [e]) = (r, a)" by simp
      show ?thesis
      proof (cases "n = k")
        case True
        with Thrown False show ?thesis by simp
      next
        case False
        with Suc.prems have "Suc k \<le> n" by simp
        from Suc.IH [OF * this Suc.prems(3)] show ?thesis .
      qed
    qed
  qed (use Suc.prems in auto)
qed

lemma pretry_from_resolves:
  "(\<And>n. k \<le> n \<Longrightarrow> n < k + j \<Longrightarrow> \<exists>e. input n = Thrown e \<and> \<not> is_TypeError e)
     \<Longrightarrow> input (k + j) = Resolved v \<Longrightarrow> j \<le> left
     \<Longrightarrow> pretry_from input k left errs = (Inr v, k + j)"
proof (induction j arbitrary: k left errs)
  case 0
  then show ?case by simp
next
  case (Suc j)
  from Suc.prems(1) [of k] obtain e where e: "input k = Thrown e" "\<not> is_TypeError e" by auto
  from Suc.prems(3) obtain l where l: "left = Suc l" by (cases left) auto
  have "pretry_from input (Suc k) l (errs @ [e]) = (Inr v, Suc k + j)"
  proof (rule Suc.IH)
    fix n assume "Suc k \<le> n" "n < Suc k + j"
    then show "\<exists>e. input n = Thrown e \<and> \<not> is_TypeError e" using Suc.prems(1) [of n] by simp
  next
    show "input (Suc k + j) = Resolved v" using Suc.prems(2) by simp
    show "j \<le> l" using Suc.prems(3) l by simp
  qed
  with e l show ?case by simp
qed

lemma pretry_from_aborts:
  "(\<And>n. k \<le> n \<Longrightarrow> n < k + j \<Longrightarrow> \<exists>e. input n = Thrown e \<and> \<not> is_TypeError e)
     \<Longrightarrow> input (k + j) = Aborted x \<Longrightarrow> j \<le> left
     \<Longrightarrow> pretry_from input k left errs = (Inl x, k + j)"
proof (induction j arbitrary: k left errs)
  case 0
  then show ?case by simp
next
  case (Suc j)
  from Suc.prems(1) [of k] obtain e where e: "input k = Thrown e" "\<not> is_TypeError e" by auto
  from Suc.prems(3) obtain l where l: "left = Suc l" by (cases left) auto
  have "pretry_from input (Suc k) l (errs @ [e]) = (Inl x, Suc k + j)"
  proof (rule Suc.IH)
    fix n assume "Suc k \<le> n" "n < Suc k + j"
    then show "\<exists>e. input n = Thrown e \<and> \<not> is_TypeError e" using Suc.prems(1) [of n] by simp
  next
    show "input (Suc k + j) = Aborted x" using Suc.prems(2) by simp
    show "j \<le> l" using Suc.prems(3) l by simp
  qed
  with e l show ?case by simp
qed

lemma pretry_from_exhausted:
  "(\<And>n. k \<le> n \<Longrightarrow> n \<le> k + left \<Longrightarrow> \<forall>v. input n \<noteq> Resolved v)
     \<Longrightarrow> \<exists>e. fst (pretry_from input k left errs) = Inl e"
proof (induction left arbitrary: k errs)
  case 0
  from 0 [of k] show ?case by (auto split: settled.splits)
next
  case (Suc left)
  have "\<exists>e. fst (pretry_from input (Suc k) left (errs @ [x])) = Inl e" for x
  proof (rule Suc.IH)
    fix n assume "Suc k \<le> n" "n \<le> Suc k + left"
    then show "\<forall>v. input n \<noteq> Resolved v" using Suc.prems [of n] by simp
  qed
  with Suc.prems [of k] show ?case by (auto split: settled.splits)
qed

lemma mainError_loop_same:
  "(\<And>x. x \<in> set es \<Longrightarrow> x = e) \<Longrightarrow> mainError_loop seen es e c = e"
  by (induction es arbitrary: seen c) (auto simp: Let_def)

lemma mainError_same:
  assumes "xs \<noteq> []" and "\<And>x. x \<in> set xs \<Longrightarrow> x = e"
  shows "mainError xs = e"
proof (cases xs)
  case Nil
  then show ?thesis using assms(1) by simp
next
  case (Cons a list)
  then have a: "a = e" using assms(2) by simp
  have "mainError_loop [] (e # list) e 0 = e"
    by (rule mainError_loop_same) (use assms(2) Cons in auto)
  with Cons a show ?thesis by simp
qed

lemma pretry_from_same_error:
  "(\<And>n. k \<le> n \<Longrightarrow> n \<le> k + left \<Longrightarrow> input n = Thrown e) \<Longrightarrow> \<not> is_TypeError e
     \<Longrightarrow> (\<And>x. x \<in> set errs \<Longrightarrow> x = e)
     \<Longrightarrow> pretry_from input k left errs = (Inl e, k + left)"
proof (induction left arbitrary: k errs)
  case 0
  have "mainError (errs @ [e]) = e" using 0(3) by (intro mainError_same) auto
  with 0(1) [of k] 0(2) show ?case by simp
next
  case (Suc left)
  have "pretry_from input (Suc k) left (errs @ [e]) = (Inl e, Suc k + left)"
  proof (rule Suc.IH)
    fix n assume "Suc k \<le> n" "n \<le> Suc k + left"
    then show "input n = Thrown e" using Suc.prems(1) [of n] by simp
  next
    show "\<not> is_TypeError e" by fact
    fix x assume "x \<in> set (errs @ [e])"
    then show "x = e" using Suc.prems(3) by auto
  qed
  with Suc.prems(1) [of k] Suc.prems(2) show ?case by simp
qed

section \<open>Lemmas on fetchFeeds\<close>

lemma rejections_mem:
  "(e, n) \<in> set (rejections ps) \<longleftrightarrow> (Inl e, n) \<in> set ps"
  by (induction ps rule: rejections.induct) auto

lemma rejections_Nil_iff:
  "rejections ps = [] \<longleftrightarrow> (\<forall>p \<in> set ps. \<exists>v. fst p = Inr v)"
  by (induction ps rule: rejections.induct) auto

lemma resolutions_map_Inr:
  "resolutions (map (\<lambda>x. (Inr (v x), n x)) xs) = map v xs"
  by (induction xs) auto

lemma first_rejection_mem:
  "\<exists>n'. (first_rejection (e, n) rs, n') \<in> set ((e, n) # rs)"
proof (induction rs arbitrary: e n)
  case Nil
  then show ?case by auto
next
  case (Cons r rs)
  obtain e' n' where r: "r = (e', n')" by (cases r)
  from Cons [of e' n'] Cons [of e n] r show ?case by auto
qed

lemma fetchFeeds_fails_iff:
  "(\<exists>b. fst (fetchFeeds sink ids retries) = Inl b)
     \<longleftrightarrow> (\<exists>f \<in> set ids. \<exists>e. fst (pretry (run sink f) retries) = Inl e)"
proof -
  let ?settled = "map (\<lambda>f. pretry (run sink f) retries) ids"
  have "(\<exists>b. fst (fetchFeeds sink ids retries) = Inl b) \<longleftrightarrow> rejections ?settled \<noteq> []"
    by (auto simp: fetchFeeds_def Let_def split: list.splits)
  also have "\<dots> \<longleftrightarrow> (\<exists>f \<in> set ids. \<exists>e. fst (pretry (run sink f) retries) = Inl e)"
    unfolding rejections_Nil_iff
    by (auto simp: image_iff) (metis sum.exhaust sum.distinct(1))+
  finally show ?thesis .
qed

lemma fetchFeeds_failure:
  assumes "fst (fetchFeeds sink ids retries) = Inl b"
  shows "(\<exists>f \<in> set ids. fst (pretry (run sink f) retries) = Inl (cause b))
     \<and> b = boomify (cause b) (Some (if json_not_found_test (message (cause b)) then 404 else 500))
            ''Unable to fetch 1 or more feeds from storage.''"
proof -
  let ?settled = "map (\<lambda>f. pretry (run sink f) retries) ids"
  from assms obtain r rs where rs: "rejections ?settled = r # rs"
    by (auto simp: fetchFeeds_def Let_def split: list.splits)
  obtain e n where r: "r = (e, n)" by (cases r)
  let ?err = "first_rejection (e, n) rs"
  from assms rs r have b: "b = boomify ?err (Some (if json_not_found_test (message ?err) then 404 else 500))
            ''Unable to fetch 1 or more feeds from storage.''"
    by (simp add: fetchFeeds_def Let_def)
  then have c: "cause b = ?err" by (simp add: boomify_def)
  from first_rejection_mem [of e n rs] obtain n' where "(?err, n') \<in> set (rejections ?settled)"
    using rs r by auto
  then have "(Inl ?err, n') \<in> set ?settled" by (simp add: rejections_mem)
  then obtain f where "f \<in> set ids" "pretry (run sink f) retries = (Inl ?err, n')" by auto
  then have "\<exists>f \<in> set ids. fst (pretry (run sink f) retries) = Inl (cause b)"
    using c by force
  with b c show ?thesis by simp
qed

lemma fetchFeeds_success:
  assumes "\<And>f. f \<in> set ids \<Longrightarrow> fst (pretry (run sink f) retries) = Inr (v f)"
  shows "fst (fetchFeeds sink ids retries) = Inr (map v ids)"
proof -
  let ?n = "\<lambda>f. snd (pretry (run sink f) retries)"
  have eq: "map (\<lambda>f. pretry (run sink f) retries) ids = map (\<lambda>f. (Inr (v f), ?n f)) ids"
    using assms by (intro map_cong refl) (metis prod.collapse)
  have "rejections (map (\<lambda>f. (Inr (v f) :: js_error + string, ?n f)) ids) = []"
    unfolding rejections_Nil_iff by auto
  then show ?thesis
    unfolding fetchFeeds_def Let_def eq by (simp add: resolutions_map_Inr)
qed

lemma count_get_round:
  "count_list (map (\<lambda>(f, n). SinkGet f) (filter (\<lambda>(f, n). r \<le> n) (zip ids (map a ids)))) (SinkGet g)
     = (if r \<le> a g then count_list ids g else 0)"
  by (induction ids) auto

lemma count_get_calls:
  "count_list (get_calls ids (map a ids) retries) (SinkGet g)
     = count_list ids g * min (a g) (retries + 1)"
proof (induction retries)
  case 0
  show ?case using count_get_round [of 1 ids a g]
    by (auto simp: get_calls_def min_def)
next
  case (Suc retries)
  have split: "get_calls ids (map a ids) (Suc retries)
      = get_calls ids (map a ids) retries
        @ map (\<lambda>(f, n). SinkGet f) (filter (\<lambda>(f, n). retries + 2 \<le> n) (zip ids (map a ids)))"
    by (simp add: get_calls_def)
  have "count_list (get_calls ids (map a ids) (Suc retries)) (SinkGet g)
      = count_list ids g * min (a g) (retries + 1)
        + (if retries + 2 \<le> a g then count_list ids g else 0)"
    unfolding split using Suc count_get_round [of "retries + 2" ids a g] by simp
  also have "\<dots> = count_list ids g * min (a g) (Suc retries + 1)"
  proof (cases "retries + 2 \<le> a g")
    case True
    then have "min (a g) (retries + 1) = retries + 1" "min (a g) (Suc retries + 1) = retries + 2"
      by simp_all
    with True show ?thesis by simp
  next
    case False
    then have "min (a g) (Suc retries + 1) = min (a g) (retries + 1)" by simp
    with False show ?thesis by simp
  qed
  finally show ?case .
qed

lemma fetchFeeds_calls:
  "snd (fetchFeeds sink ids retries)
     = get_calls ids (map (\<lambda>f. snd (pretry (run sink f) retries)) ids) retries"
  by (simp add: fetchFeeds_def Let_def comp_def split: list.splits)

lemma run_simps:
  "sink_get sink f n = Inr bytes \<Longrightarrow> run sink f n = Resolved bytes"
  "sink_get sink f n = Inl err \<Longrightarrow> str_includes (message err) ''No file with name''
     \<Longrightarrow> run sink f n = Aborted (Error (''File '' @ [quote] @ f @ [quote] @ '' not found.''))"
  "sink_get sink f n = Inl err \<Longrightarrow> \<not> str_includes (message err) ''No file with name''
     \<Longrightarrow> run sink f n = Thrown err"
  by (simp_all add: run_def)

lemma run_Thrown_iff:
  "run sink f n = Thrown e
     \<longleftrightarrow> sink_get sink f n = Inl e \<and> \<not> str_includes (message e) ''No file with name''"
  by (auto simp: run_def split: sum.splits)

lemma pretry_attempts:
  "1 \<le> snd (pretry input retries) \<and> snd (pretry input retries) \<le> retries + 1"
  using pretry_from_bounds [of input 1 retries "[]" "fst (pretry input retries)" "snd (pretry input retries)"]
  by (simp add: pretry_def)


lemma fetch_no_read_after_not_found:
  assumes "1 \<le> n" and "n < snd (pretry (run sink f) retries)" and "sink_get sink f n = Inl e"
  shows "\<not> str_includes (message e) ''No file with name''"
proof -
  have "pretry_from (run sink f) 1 retries [] = (fst (pretry (run sink f) retries), snd (pretry (run sink f) retries))"
    by (simp add: pretry_def)
  from pretry_from_before [OF this assms(1,2)] obtain e' where "run sink f n = Thrown e'" by blast
  with assms(3) show ?thesis by (simp add: run_Thrown_iff)
qed

lemma fetch_one_succeeds:
  assumes "k \<le> retries"
    and "\<And>n. 1 \<le> n \<Longrightarrow> n \<le> k \<Longrightarrow>
           \<exists>e. sink_get sink f n = Inl e \<and> \<not> str_includes (message e) ''No file with name''
                 \<and> \<not> is_TypeError e"
    and "sink_get sink f (k + 1) = Inr bytes"
  shows "pretry (run sink f) retries = (Inr bytes, k + 1)"
proof -
  have "pretry_from (run sink f) 1 retries [] = (Inr bytes, 1 + k)"
  proof (rule pretry_from_resolves)
    fix n assume "1 \<le> n" "n < 1 + k"
    with assms(2) [of n] show "\<exists>e. run sink f n = Thrown e \<and> \<not> is_TypeError e"
      by (auto simp: run_Thrown_iff)
  next
    show "run sink f (1 + k) = Resolved bytes" using assms(3) by (simp add: run_simps)
    show "k \<le> retries" by fact
  qed
  then show ?thesis by (simp add: pretry_def)
qed

lemma fetch_one_exhausted:
  assumes "\<And>n. 1 \<le> n \<Longrightarrow> n \<le> retries + 1 \<Longrightarrow> \<exists>e. sink_get sink f n = Inl e"
  shows "\<exists>e. fst (pretry (run sink f) retries) = Inl e"
  unfolding pretry_def
proof (rule pretry_from_exhausted)
  fix n assume "1 \<le> n" "n \<le> 1 + retries"
  with assms [of n] show "\<forall>v. run sink f n \<noteq> Resolved v"
    by (auto simp: run_def split: if_splits)
qed

lemma set_attempt_simps:
  "set_fault sink name n = Some e \<Longrightarrow> set_attempt sink name content n = Thrown e"
  "set_fault sink name n = None \<Longrightarrow> set_attempt sink name content n = Resolved ()"
  by (simp_all add: set_attempt_def sink_set_def)

lemma upload_succeeds:
  assumes "k \<le> retries"
    and "\<And>n. 1 \<le> n \<Longrightarrow> n \<le> k \<Longrightarrow> \<exists>e. set_fault sink name n = Some e \<and> \<not> is_TypeError e"
    and "set_fault sink name (k + 1) = None"
  shows "upload sink name content retries
           = (Inr (), sink\<lparr>objects := (objects sink)(name \<mapsto> content)\<rparr>,
              replicate (k + 1) (SinkSet name content))"
proof -
  have "pretry_from (set_attempt sink name content) 1 retries [] = (Inr (), 1 + k)"
  proof (rule pretry_from_resolves)
    fix n assume "1 \<le> n" "n < 1 + k"
    with assms(2) [of n]
    show "\<exists>e. set_attempt sink name content n = Thrown e \<and> \<not> is_TypeError e"
      by (auto simp: set_attempt_simps)
  next
    show "set_attempt sink name content (1 + k) = Resolved ()"
      using assms(3) by (simp add: set_attempt_simps)
    show "k \<le> retries" by fact
  qed
  then have "pretry (set_attempt sink name content) retries = (Inr (), Suc k)"
    by (simp add: pretry_def)
  then show ?thesis using assms(3) by (simp add: upload_def sink_set_def)
qed

lemma upload_exhausted:
  assumes "\<And>n. 1 \<le> n \<Longrightarrow> n \<le> retries + 1 \<Longrightarrow> set_fault sink name n \<noteq> None"
  shows "\<exists>b n. upload sink name content retries = (Inl b, sink, replicate n (SinkSet name content))
           \<and> statusCode b = (case boom_status (cause b) of Some code \<Rightarrow> code | None \<Rightarrow> 500)
           \<and> boom_message b
               = ''Unable to upload bundle with fileName '' @ [quote] @ name @ [quote] @ '' to storage.''
                 @ (if message (cause b) = [] then [] else '': '' @ message (cause b))"
proof -
  obtain r n where rn: "pretry (set_attempt sink name content) retries = (r, n)"
    by (cases "pretry (set_attempt sink name content) retries")
  have "\<exists>e. fst (pretry (set_attempt sink name content) retries) = Inl e"
    unfolding pretry_def
  proof (rule pretry_from_exhausted)
    fix n assume "1 \<le> n" "n \<le> 1 + retries"
    with assms [of n] show "\<forall>v. set_attempt sink name content n \<noteq> Resolved v"
      by (auto simp: set_attempt_def sink_set_def)
  qed
  with rn obtain e where r: "r = Inl e" by auto
  from pretry_attempts [of "set_attempt sink name content" retries] rn
  have "1 \<le> n" "n \<le> retries + 1" by simp_all
  with assms [of n] have "snd (sink_set sink name content n) = sink"
    by (auto simp: sink_set_def)
  with rn r show ?thesis by (simp add: upload_def boomify_def)
qed

lemma dotstar_then_skip:
  "(\<And>c. c \<in> set g \<Longrightarrow> \<not> line_terminator c) \<Longrightarrow> prefix lit s \<Longrightarrow> dotstar_then lit (g @ s)"
proof (induction g)
  case Nil
  then show ?case by (cases s) auto
next
  case (Cons c g)
  then show ?case by simp
qed

lemma json_not_found_test_ends_in_json:
  assumes "\<And>c. c \<in> set g \<Longrightarrow> \<not> line_terminator c"
  shows "json_not_found_test (''File '' @ [quote] @ g @ ''json'' @ [quote] @ '' not found.'')"
proof -
  have "dotstar_then (''json'' @ [quote] @ '' not found'') (g @ (''json'' @ [quote] @ '' not found'') @ ''.'')"
    by (rule dotstar_then_skip) (use assms in auto)
  then show ?thesis by simp
qed

section \<open>Lemmas on the pipeline\<close>

lemma get_calls_first_only:
  "get_calls ids (map (\<lambda>f. 1::nat) ids) retries = map SinkGet ids"
proof (induction retries)
  case 0
  have "filter (\<lambda>(f, n). 1 \<le> n) (zip ids (map (\<lambda>f. 1::nat) ids)) = zip ids (map (\<lambda>f. 1::nat) ids)"
    by (rule filter_True) (auto simp: set_zip)
  moreover have "map (\<lambda>(f, n). SinkGet f) (zip ids (map (\<lambda>f. 1::nat) ids)) = map SinkGet ids"
    by (induction ids) auto
  ultimately show ?case by (simp add: get_calls_def)
next
  case (Suc retries)
  have "filter (\<lambda>(f, n). retries + 2 \<le> n) (zip ids (map (\<lambda>f. 1::nat) ids)) = []"
    by (rule filter_False) (auto simp: set_zip)
  moreover have "get_calls ids (map (\<lambda>f. 1::nat) ids) (Suc retries)
      = get_calls ids (map (\<lambda>f. 1::nat) ids) retries
        @ map (\<lambda>(f, n). SinkGet f) (filter (\<lambda>(f, n). retries + 2 \<le> n) (zip ids (map (\<lambda>f. 1::nat) ids)))"
    by (simp add: get_calls_def)
  ultimately show ?case using Suc by simp
qed

lemma fetchFeeds_all_first:
  assumes "\<And>f. f \<in> set ids \<Longrightarrow> sink_get sink f 1 = Inr (v f)"
  shows "fetchFeeds sink ids retries = (Inr (map v ids), map SinkGet ids)"
proof -
  have one: "pretry (run sink f) retries = (Inr (v f), 1)" if "f \<in> set ids" for f
    using fetch_one_succeeds [of 0 retries sink f "v f"] assms [OF that] by simp
  have "fst (fetchFeeds sink ids retries) = Inr (map v ids)"
    by (rule fetchFeeds_success) (simp add: one)
  moreover have "snd (fetchFeeds sink ids retries) = map SinkGet ids"
  proof -
    have "map (\<lambda>f. snd (pretry (run sink f) retries)) ids = map (\<lambda>f. 1::nat) ids"
      by (rule map_cong) (simp_all add: one)
    then show ?thesis by (simp only: fetchFeeds_calls get_calls_first_only)
  qed
  ultimately show ?thesis by (simp add: prod_eq_iff)
qed

lemma upload_first:
  assumes "set_fault sink name 1 = None"
  shows "upload sink name content retries
           = (Inr (), sink\<lparr>objects := (objects sink)(name \<mapsto> content)\<rparr>, [SinkSet name content])"
  using upload_succeeds [of 0 retries sink name content] assms by simp

lemma hexdigit_hex: "hexdigit n \<in> set ''0123456789abcdef''"
  unfolding hexdigit_def by (rule nth_mem) simp

lemma hex32_length: "length (hex32 w) = 8"
  by (simp add: hex32_def)

lemma hex32_hex: "set (hex32 w) \<subseteq> set ''0123456789abcdef''"
  unfolding hex32_def using hexdigit_hex by auto

lemma hex_digest_length: "length (hex_digest st) = 64"
  by (cases st rule: hex_digest.cases) (simp add: hex32_length)

lemma hex_digest_hex: "set (hex_digest st) \<subseteq> set ''0123456789abcdef''"
proof (cases st rule: hex_digest.cases)
  case (1 a b c d e f g h)
  then show ?thesis
    using hex32_hex [of a] hex32_hex [of b] hex32_hex [of c] hex32_hex [of d]
      hex32_hex [of e] hex32_hex [of f] hex32_hex [of g] hex32_hex [of h]
    by simp
qed

lemma createHashFromContent_length: "length (createHashFromContent content) = 64"
  by (simp add: createHashFromContent_def hex_digest_length)

lemma createHashFromContent_hex:
  "set (createHashFromContent content) \<subseteq> set ''0123456789abcdef''"
  unfolding createHashFromContent_def by (rule hex_digest_hex)

lemma bundleAndUpload_success:
  assumes "fst (bundleAndUpload p sink type feedIds baseUri) = Inr r"
  shows "\<exists>ids raws feeds content.
           feedIds = IdArray ids \<and> ids \<noteq> []
         \<and> fst (fetchFeeds sink ids 3) = Inr raws
         \<and> fst (parseFeeds p raws) = Inr feeds
         \<and> fst (bundleFeeds p feeds type) = Inr content
         \<and> fst (upload sink (createHashFromContent content @ ''.'' @ type) content 3) = Inr ()
         \<and> r = \<lparr> file = createHashFromContent content @ ''.'' @ type,
                  uri = baseUri @ createHashFromContent content @ ''.'' @ type \<rparr>"
  using assms
  by (auto simp: bundleAndUpload_def Let_def split: feed_ids.splits if_splits prod.splits sum.splits)

section \<open>Lemmas on parsing and validation\<close>



lemma item_ok_iff: "item_ok v \<longleftrightarrow> (\<exists>s. v = JString s \<and> s \<noteq> [])"
  by (cases v) auto

lemma first_bad_item_None_iff:
  "first_bad_item items pos = None \<longleftrightarrow> (\<forall>v \<in> set items. item_ok v)"
  by (induction items arbitrary: pos) auto

lemma validate_items_accepts_iff:
  "validate_items items = Inr ids
     \<longleftrightarrow> 1 \<le> length items \<and> length items \<le> 100
         \<and> (\<forall>v \<in> set items. \<exists>s. v = JString s \<and> s \<noteq> []) \<and> ids = map string_of items"
proof (cases "first_bad_item items 0")
  case None
  then have "\<forall>v \<in> set items. \<exists>s. v = JString s \<and> s \<noteq> []"
    by (simp add: first_bad_item_None_iff item_ok_iff)
  with None show ?thesis
    by (cases items) (auto simp: validate_items_def)
next
  case (Some pos)
  then have "\<not> (\<forall>v \<in> set items. \<exists>s. v = JString s \<and> s \<noteq> [])"
    using first_bad_item_None_iff [of items 0] by (simp add: item_ok_iff)
  with Some show ?thesis by (simp add: validate_items_def)
qed

lemma validateFeeds_failure:
  "validateFeeds p feeds = Inl b
     \<Longrightarrow> statusCode b = 400
       \<and> prefix ''Invalid feed data given in POST-body.'' (boom_message b)"
  by (auto simp: validateFeeds_def boomify_def split: sum.splits)

lemma validateFeeds_array:
  "validateFeeds p (JArray items)
     = (case validate_items items of
          Inl failure \<Rightarrow> Inl (boomify (ValidationError (joi_message p failure)) (Some 400)
                                ''Invalid feed data given in POST-body.'')
        | Inr v \<Rightarrow> Inr v)"
  by (simp add: validateFeeds_def)

lemma validateFeeds_array_accepts_iff:
  "validateFeeds p (JArray items) = Inr ids
     \<longleftrightarrow> 1 \<le> length items \<and> length items \<le> 100
         \<and> (\<forall>v \<in> set items. \<exists>s. v = JString s \<and> s \<noteq> []) \<and> ids = map string_of items"
  unfolding validate_items_accepts_iff [symmetric] validateFeeds_array
  by (auto split: sum.splits)

lemma validateFeeds_array_rejects:
  assumes "\<not> (1 \<le> length items \<and> length items \<le> 100
         \<and> (\<forall>v \<in> set items. \<exists>s. v = JString s \<and> s \<noteq> []))"
  shows "\<exists>b. validateFeeds p (JArray items) = Inl b \<and> statusCode b = 400"
proof (cases "validateFeeds p (JArray items)")
  case (Inl b)
  with validateFeeds_failure [OF Inl] show ?thesis by simp
next
  case (Inr ids)
  with assms validateFeeds_array_accepts_iff [of p items ids] show ?thesis by blast
qed

lemma parseBody_failure:
  "parseBody p body = Inl b
     \<Longrightarrow> statusCode b = 400 \<and> prefix ''No feed data given in POST-body.'' (boom_message b)"
  by (auto simp: parseBody_def boomify_def split: sum.splits)

section \<open>The digest of an example\<close>

text \<open>
  The digest of \<^verbatim>\<open>abc\<close> is the one FIPS 180-4 gives for it. It is computed in stages:
  the padded block, its message schedule, the 64 rounds in four runs of 16.
\<close>

lemma abc_block:
  "blocks (pad (utf8 ''abc'')) = [[97, 98, 99, 128] @ replicate 52 0 @ [0, 0, 0, 0, 0, 0, 0, 24]]"
  by code_simp

lemma abc_block_words:
  "block_words ([97, 98, 99, 128] @ replicate 52 0 @ [0, 0, 0, 0, 0, 0, 0, 24])
     = [1633837952, 0, 0, 0, 0, 0, 0, 0, 0, 0, 0, 0, 0, 0, 0, 24]"
  by code_simp

lemma abc_schedule_eq:
  "schedule [1633837952, 0, 0, 0, 0, 0, 0, 0, 0, 0, 0, 0, 0, 0, 0, 24] = abc_schedule"
  by code_simp

lemma abc_rounds_16:
  "fold (round_step abc_schedule) [0..<16] sha256_H0
     = (2969183118, 3227803614, 3643992854, 2274437520, 123276749, 194179596, 1952073950, 509051416)"
  by code_simp

lemma abc_rounds_32:
  "fold (round_step abc_schedule) [16..<32]
       (2969183118, 3227803614, 3643992854, 2274437520, 123276749, 194179596, 1952073950, 509051416)
     = (1941126133, 3935906338, 2684750640, 909411017, 3126399250, 17410874, 2917635127, 1628611511)"
  by code_simp

lemma abc_rounds_48:
  "fold (round_step abc_schedule) [32..<48]
       (1941126133, 3935906338, 2684750640, 909411017, 3126399250, 17410874, 2917635127, 1628611511)
     = (1098003085, 2706117808, 1923828625, 643991573, 4274981830, 3581645993, 3077922209, 2819559920)"
  by code_simp

lemma abc_rounds_64:
  "fold (round_step abc_schedule) [48..<64]
       (1098003085, 2706117808, 1923828625, 643991573, 4274981830, 3581645993, 3077922209, 2819559920)
     = (1349398616, 3550093669, 80891244, 3093179625, 1593118500, 4212265488, 2492278198, 2518632596)"
  by code_simp

lemma upt_64: "[0..<64] = [0..<16] @ [16..<32] @ [32..<48] @ [48..<64]"
  by code_simp

lemma abc_rounds:
  "fold (round_step abc_schedule) [0..<64] sha256_H0
     = (1349398616, 3550093669, 80891244, 3093179625, 1593118500, 4212265488, 2492278198, 2518632596)"
  unfolding upt_64 fold_append comp_def abc_rounds_16 abc_rounds_32 abc_rounds_48 abc_rounds_64
  by (rule refl)

lemma abc_sha256:
  "sha256 (utf8 ''abc'')
     = (0xba7816bf, 0x8f01cfea, 0x414140de, 0x5dae2223, 0xb00361a3, 0x96177a9c, 0xb410ff61, 0xf20015ad)"
proof -
  have "sha256 (utf8 ''abc'') = add_state sha256_H0 (fold (round_step abc_schedule) [0..<64] sha256_H0)"
    by (simp only: sha256_def abc_block fold_simps comp_def id_apply compress_def
        abc_block_words abc_schedule_eq)
  also have "\<dots> = add_state sha256_H0
       (1349398616, 3550093669, 80891244, 3093179625, 1593118500, 4212265488, 2492278198, 2518632596)"
    by (simp only: abc_rounds)
  also have "\<dots> = (0xba7816bf, 0x8f01cfea, 0x414140de, 0x5dae2223, 0xb00361a3, 0x96177a9c, 0xb410ff61, 0xf20015ad)"
    by code_simp
  finally show ?thesis .
qed

lemma createHashFromContent_abc:
  "createHashFromContent ''abc''
     = ''ba7816bf8f01cfea414140de5dae2223b00361a396177a9cb410ff61f20015ad''"
proof -
  have "hex_digest (0xba7816bf, 0x8f01cfea, 0x414140de, 0x5dae2223, 0xb00361a3, 0x96177a9c, 0xb410ff61, 0xf20015ad)
      = ''ba7816bf8f01cfea414140de5dae2223b00361a396177a9cb410ff61f20015ad''"
    by code_simp
  then show ?thesis by (simp only: createHashFromContent_def abc_sha256)
qed

section \<open>The claims\<close>

text \<open>
  C1 as stated fails: not every object-not-found error ends the retry loop. The sink
  below has no object at all and words the absence as \<^verbatim>\<open>ENOENT\<close>; the id is read four
  times, the first attempt and the three retries, before the fetch fails.
\<close>

theorem fetchFeeds_not_found_counterexample:
  "objects enoent_sink ''a.json'' = None
   \<and> sink_get enoent_sink ''a.json'' 1 = Inl (Error ''ENOENT: no such file or directory'')
   \<and> pretry (run enoent_sink ''a.json'') 3 = (Inl (Error ''ENOENT: no such file or directory''), 4)
   \<and> snd (fetchFeeds enoent_sink [''a.json''] 3)
       = [SinkGet ''a.json'', SinkGet ''a.json'', SinkGet ''a.json'', SinkGet ''a.json'']"
proof -
  let ?e = "Error ''ENOENT: no such file or directory''"
  have get: "sink_get enoent_sink k n = Inl ?e" for k n
    by (simp add: sink_get_def enoent_sink_def memory_sink_def)
  have "pretry_from (run enoent_sink ''a.json'') 1 3 [] = (Inl ?e, 1 + 3)"
    by (rule pretry_from_same_error) (simp_all add: run_simps get)
  then have p: "pretry (run enoent_sink ''a.json'') 3 = (Inl ?e, 4)" by (simp add: pretry_def)
  have "snd (fetchFeeds enoent_sink [''a.json''] 3) = get_calls [''a.json''] [4] 3"
    by (simp add: fetchFeeds_calls p)
  also have "\<dots> = [SinkGet ''a.json'', SinkGet ''a.json'', SinkGet ''a.json'', SinkGet ''a.json'']"
    by (simp add: get_calls_def upt_rec)
  finally show ?thesis using p get by (simp add: enoent_sink_def memory_sink_def)
qed

text \<open>
  C1, amended. When a read of an id fails with an error whose message includes
  \<^verbatim>\<open>No file with name\<close>, the text by which \<^verbatim>\<open>fetchFeeds\<close> knows an object-not-found error,
  the retry loop of that id ends with that read, whatever the number of retries, with
  the error \<^verbatim>\<open>File "<id>" not found.\<close>, and the whole fetch fails: its result is a
  classified failure and no list of feeds. The read is the attempt \<open>n + 1\<close>, after \<open>n\<close>
  reads that failed with errors that are retried (\<open>n = 0\<close>: the first attempt); the
  trace then holds \<open>n + 1\<close> reads of the id for each of its occurrences in the list,
  and none after the one that reported not found. No read of any id follows one whose
  error has that text.
\<close>

theorem fetchFeeds_aborts_on_not_found:
  assumes "f \<in> set ids"
    and "n \<le> retries"
    and "\<forall>m. 1 \<le> m \<and> m \<le> n \<longrightarrow>
           (\<exists>e. sink_get sink f m = Inl e \<and> \<not> str_includes (message e) ''No file with name''
                \<and> \<not> is_TypeError e)"
    and "sink_get sink f (n + 1) = Inl err"
    and "str_includes (message err) ''No file with name''"
  shows "pretry (run sink f) retries
           = (Inl (Error (''File '' @ [quote] @ f @ [quote] @ '' not found.'')), n + 1)
    \<and> count_list (snd (fetchFeeds sink ids retries)) (SinkGet f) = count_list ids f * (n + 1)
    \<and> (\<exists>b. fst (fetchFeeds sink ids retries) = Inl b)
    \<and> (\<forall>g m e. 1 \<le> m \<and> m < snd (pretry (run sink g) retries) \<and> sink_get sink g m = Inl e
          \<longrightarrow> \<not> str_includes (message e) ''No file with name'')"
proof -
  have "pretry_from (run sink f) 1 retries []
      = (Inl (Error (''File '' @ [quote] @ f @ [quote] @ '' not found.'')), 1 + n)"
  proof (rule pretry_from_aborts)
    fix m assume "1 \<le> m" "m < 1 + n"
    with assms(3) show "\<exists>e. run sink f m = Thrown e \<and> \<not> is_TypeError e"
      by (auto simp: run_Thrown_iff)
  next
    show "run sink f (1 + n)
        = Aborted (Error (''File '' @ [quote] @ f @ [quote] @ '' not found.''))"
      using run_simps(2) [of sink f "n + 1" err] assms(4,5) by simp
    show "n \<le> retries" by fact
  qed
  then have one: "pretry (run sink f) retries
           = (Inl (Error (''File '' @ [quote] @ f @ [quote] @ '' not found.'')), n + 1)"
    by (simp add: pretry_def)
  have "count_list (snd (fetchFeeds sink ids retries)) (SinkGet f)
      = count_list ids f * min (snd (pretry (run sink f) retries)) (retries + 1)"
    unfolding fetchFeeds_calls by (rule count_get_calls)
  then have calls: "count_list (snd (fetchFeeds sink ids retries)) (SinkGet f)
      = count_list ids f * (n + 1)"
    using assms(2) by (simp add: one min_def)
  have fails: "\<exists>b. fst (fetchFeeds sink ids retries) = Inl b"
    unfolding fetchFeeds_fails_iff using assms(1) one by force
  from one calls fails fetch_no_read_after_not_found show ?thesis by blast
qed

theorem fetchFeeds_aborts_on_not_found_witness:
  "sink_get (memory_sink []) ''doesNotExist.json'' 1
      = Inl (Error (''No file with name '' @ [quote] @ ''doesNotExist.json'' @ [quote]))
   \<and> str_includes (''No file with name '' @ [quote] @ ''doesNotExist.json'' @ [quote]) ''No file with name''
   \<and> ''doesNotExist.json'' \<in> set [''doesNotExist.json'']
   \<and> pretry (run (memory_sink []) ''doesNotExist.json'') 3
        = (Inl (Error (''File '' @ [quote] @ ''doesNotExist.json'' @ [quote] @ '' not found.'')), 1)
   \<and> count_list (snd (fetchFeeds (memory_sink []) [''doesNotExist.json''] 3)) (SinkGet ''doesNotExist.json'') = 1
   \<and> (\<exists>b. fst (fetchFeeds (memory_sink []) [''doesNotExist.json''] 3) = Inl b)"
proof -
  let ?err = "Error (''No file with name '' @ [quote] @ ''doesNotExist.json'' @ [quote])"
  have h1: "''doesNotExist.json'' \<in> set [''doesNotExist.json'']" by simp
  have h2: "(0::nat) \<le> 3" by simp
  have h3: "\<forall>m. 1 \<le> m \<and> m \<le> (0::nat) \<longrightarrow>
           (\<exists>e. sink_get (memory_sink []) ''doesNotExist.json'' m = Inl e
                \<and> \<not> str_includes (message e) ''No file with name'' \<and> \<not> is_TypeError e)"
    by simp
  have h4: "sink_get (memory_sink []) ''doesNotExist.json'' (0 + 1) = Inl ?err"
    by (simp add: sink_get_def memory_sink_def)
  have h5: "str_includes (message ?err) ''No file with name''"
    by simp
  from fetchFeeds_aborts_on_not_found [OF h1 h2 h3 h4 h5] h4 h5 show ?thesis by simp
qed

text \<open>
  C2 as stated fails: the status is 404 for an id that is no \<^verbatim>\<open>*.json\<close> reference. The
  id \<^verbatim>\<open>feedjson\<close> has no dot; the sink does not have it, and the failure has status 404.
\<close>

theorem fetchFeeds_status_counterexample:
  "fst (fetchFeeds (memory_sink []) [''feedjson''] 0)
     = Inl \<lparr> statusCode = 404,
             boom_message = ''Unable to fetch 1 or more feeds from storage.: File ''
                            @ [quote] @ ''feedjson'' @ [quote] @ '' not found.'',
             cause = Error (''File '' @ [quote] @ ''feedjson'' @ [quote] @ '' not found.'') \<rparr>
   \<and> \<not> suffix ''.json'' ''feedjson''"
  by (simp add: fetchFeeds_def pretry_def run_def sink_get_def memory_sink_def boomify_def
      quote_def line_terminator_def suffix_to_prefix)

text \<open>
  C2, amended. Whenever fetchFeeds fails, the failure keeps as its cause the error that
  the retry loop of one of the ids rejected with. Its status is 404 when the message of
  that error matches the pattern \<^verbatim>\<open>File ".*json" not found\<close>, and 500 otherwise. In
  particular it is 404 when the id was reported not found, ends in \<^verbatim>\<open>json\<close>, after a dot
  or not, and has no line terminator before that ending. Its message is
  \<^verbatim>\<open>Unable to fetch 1 or more feeds from storage.\<close>, followed, when the message of the
  cause is not empty, by a colon, a space and the message of the cause.
\<close>

theorem fetchFeeds_failure_classified:
  assumes "fst (fetchFeeds sink ids retries) = Inl b"
  shows "(\<exists>f \<in> set ids. fst (pretry (run sink f) retries) = Inl (cause b))
    \<and> statusCode b = (if json_not_found_test (message (cause b)) then 404 else 500)
    \<and> boom_message b
        = ''Unable to fetch 1 or more feeds from storage.''
          @ (if message (cause b) = [] then [] else '': '' @ message (cause b))
    \<and> (\<forall>g h. cause b = Error (''File '' @ [quote] @ g @ [quote] @ '' not found.'')
          \<and> g = h @ ''json'' \<and> (\<forall>c \<in> set h. \<not> line_terminator c)
          \<longrightarrow> statusCode b = 404)"
proof -
  from fetchFeeds_failure [OF assms]
  have ex: "\<exists>f \<in> set ids. fst (pretry (run sink f) retries) = Inl (cause b)"
    and b: "b = boomify (cause b) (Some (if json_not_found_test (message (cause b)) then 404 else 500))
            ''Unable to fetch 1 or more feeds from storage.''" by simp_all
  have st: "statusCode b = (if json_not_found_test (message (cause b)) then 404 else 500)"
    by (subst b) (simp add: boomify_def)
  have msg: "boom_message b
        = ''Unable to fetch 1 or more feeds from storage.''
          @ (if message (cause b) = [] then [] else '': '' @ message (cause b))"
    by (subst b) (simp add: boomify_def)
  have "statusCode b = 404"
    if "cause b = Error (''File '' @ [quote] @ g @ [quote] @ '' not found.'')"
      and "g = h @ ''json''" and "\<forall>c \<in> set h. \<not> line_terminator c" for g h
  proof -
    have "json_not_found_test (''File '' @ [quote] @ h @ ''json'' @ [quote] @ '' not found.'')"
      by (rule json_not_found_test_ends_in_json) (use that(3) in blast)
    with that(1,2) st show ?thesis by simp
  qed
  with ex st msg show ?thesis by blast
qed

theorem fetchFeeds_failure_classified_witness:
  "fst (fetchFeeds (memory_sink []) [''completelyfake.json''] 3)
     = Inl \<lparr> statusCode = 404,
             boom_message = ''Unable to fetch 1 or more feeds from storage.: File ''
                            @ [quote] @ ''completelyfake.json'' @ [quote] @ '' not found.'',
             cause = Error (''File '' @ [quote] @ ''completelyfake.json'' @ [quote] @ '' not found.'') \<rparr>
   \<and> fst (pretry (run (memory_sink []) ''completelyfake.json'') 3)
        = Inl (Error (''File '' @ [quote] @ ''completelyfake.json'' @ [quote] @ '' not found.''))"
proof -
  let ?b = "\<lparr> statusCode = 404,
             boom_message = ''Unable to fetch 1 or more feeds from storage.: File ''
                            @ [quote] @ ''completelyfake.json'' @ [quote] @ '' not found.'',
             cause = Error (''File '' @ [quote] @ ''completelyfake.json'' @ [quote] @ '' not found.'') \<rparr>"
  have h: "fst (fetchFeeds (memory_sink []) [''completelyfake.json''] 3) = Inl ?b"
    by (simp add: fetchFeeds_def pretry_def run_def sink_get_def memory_sink_def boomify_def
        quote_def line_terminator_def)
  from fetchFeeds_failure_classified [OF h] h show ?thesis by simp
qed

text \<open>
  C3 as stated fails: not every failure is retried. The sink below fails once, with a
  \<^verbatim>\<open>TypeError\<close>, and would succeed at the second attempt; the retry budget is 3. p-retry
  does not retry after a \<^verbatim>\<open>TypeError\<close>: the upload and the fetch fail after one attempt.
\<close>

theorem bounded_retry_counterexample:
  "set_fault (failing_first 1 (TypeError ''sink is not ready'') (memory_sink [(''a.json'', ''[1]'')]))
       ''x.js'' 1 = Some (TypeError ''sink is not ready'')
   \<and> set_fault (failing_first 1 (TypeError ''sink is not ready'') (memory_sink [(''a.json'', ''[1]'')]))
       ''x.js'' 2 = None
   \<and> fst (upload (failing_first 1 (TypeError ''sink is not ready'') (memory_sink [(''a.json'', ''[1]'')]))
         ''x.js'' ''abc'' 3)
       = Inl \<lparr> statusCode = 500,
               boom_message = ''Unable to upload bundle with fileName '' @ [quote] @ ''x.js'' @ [quote]
                              @ '' to storage.: sink is not ready'',
               cause = TypeError ''sink is not ready'' \<rparr>
   \<and> snd (snd (upload (failing_first 1 (TypeError ''sink is not ready'') (memory_sink [(''a.json'', ''[1]'')]))
         ''x.js'' ''abc'' 3))
       = [SinkSet ''x.js'' ''abc'']
   \<and> sink_get (failing_first 1 (TypeError ''sink is not ready'') (memory_sink [(''a.json'', ''[1]'')]))
       ''a.json'' 1 = Inl (TypeError ''sink is not ready'')
   \<and> sink_get (failing_first 1 (TypeError ''sink is not ready'') (memory_sink [(''a.json'', ''[1]'')]))
       ''a.json'' 2 = Inr ''[1]''
   \<and> fetchFeeds (failing_first 1 (TypeError ''sink is not ready'') (memory_sink [(''a.json'', ''[1]'')]))
         [''a.json''] 3
       = (Inl \<lparr> statusCode = 500,
                boom_message = ''Unable to fetch 1 or more feeds from storage.: sink is not ready'',
                cause = TypeError ''sink is not ready'' \<rparr>,
          [SinkGet ''a.json''])"
proof -
  let ?e = "TypeError ''sink is not ready''"
  let ?s = "failing_first 1 ?e (memory_sink [(''a.json'', ''[1]'')])"
  have sf: "set_fault ?s k n = (if n \<le> 1 then Some ?e else None)" for k n
    by (simp add: failing_first_def memory_sink_def)
  have get: "sink_get ?s ''a.json'' n = (if n \<le> 1 then Inl ?e else Inr ''[1]'')" for n
    by (simp add: sink_get_def failing_first_def memory_sink_def)
  have sa: "set_attempt ?s ''x.js'' ''abc'' 1 = Thrown ?e"
    by (rule set_attempt_simps) (simp add: failing_first_def memory_sink_def)
  have pu: "pretry (set_attempt ?s ''x.js'' ''abc'') 3 = (Inl ?e, 1)"
    by (simp add: pretry_def sa del: One_nat_def)
  have up: "upload ?s ''x.js'' ''abc'' 3
      = (Inl (boomify ?e None (''Unable to upload bundle with fileName '' @ [quote] @ ''x.js'' @ [quote]
                                @ '' to storage.'')), ?s, [SinkSet ''x.js'' ''abc''])"
    unfolding upload_def pu by (simp add: sink_set_def failing_first_def memory_sink_def)
  have ra: "run ?s ''a.json'' 1 = Thrown ?e"
    by (rule run_simps) (simp_all add: sink_get_def failing_first_def memory_sink_def)
  have pf: "pretry (run ?s ''a.json'') 3 = (Inl ?e, 1)"
    by (simp add: pretry_def ra del: One_nat_def)
  have fe: "fetchFeeds ?s [''a.json''] 3
      = (Inl (boomify ?e (Some 500) ''Unable to fetch 1 or more feeds from storage.''),
         get_calls [''a.json''] [1] 3)"
    by (simp add: fetchFeeds_def pf quote_def del: One_nat_def)
  have gc: "get_calls [''a.json''] [1] 3 = [SinkGet ''a.json'']"
    by (simp add: get_calls_def upt_rec)
  show ?thesis
    by (simp add: up fe gc sf get boomify_def del: One_nat_def)
qed

text \<open>
  C3, amended. Bounded retry, with \<open>retries\<close> the retry budget. A read of an id that
  fails \<open>k\<close> times, \<open>k\<close> at most the budget (so in particular below it), with errors
  that are retried (no \<^verbatim>\<open>TypeError\<close>, and a message that does not include
  \<^verbatim>\<open>No file with name\<close>) and then succeeds, makes the fetch of that id succeed after
  \<open>k + 1\<close> attempts; when this holds of every id of the list, fetchFeeds returns the
  feeds in the order of the ids. A read that fails \<open>retries + 1\<close> times in a row makes
  fetchFeeds fail with a classified failure. A write that fails \<open>k\<close> times, with
  errors that are no \<^verbatim>\<open>TypeError\<close>, and then succeeds makes upload succeed, with the
  content stored under the name; a write that fails \<open>retries + 1\<close> times in a row makes
  upload fail with a classified failure whose message names the target. The status of
  that failure is 500, or the status of its cause when the cause is a Boom error
  already.
\<close>

theorem bounded_retry:
  "(k \<le> retries
      \<and> (\<forall>n. 1 \<le> n \<and> n \<le> k \<longrightarrow>
            (\<exists>e. sink_get sink f n = Inl e \<and> \<not> str_includes (message e) ''No file with name''
                 \<and> \<not> is_TypeError e))
      \<and> sink_get sink f (k + 1) = Inr bytes
      \<longrightarrow> pretry (run sink f) retries = (Inr bytes, k + 1))
   \<and> ((\<forall>g \<in> set ids. kf g \<le> retries
          \<and> (\<forall>n. 1 \<le> n \<and> n \<le> kf g \<longrightarrow>
                (\<exists>e. sink_get sink g n = Inl e \<and> \<not> str_includes (message e) ''No file with name''
                     \<and> \<not> is_TypeError e))
          \<and> sink_get sink g (kf g + 1) = Inr (v g))
      \<longrightarrow> fst (fetchFeeds sink ids retries) = Inr (map v ids))
   \<and> (f \<in> set ids \<and> (\<forall>n. 1 \<le> n \<and> n \<le> retries + 1 \<longrightarrow> (\<exists>e. sink_get sink f n = Inl e))
      \<longrightarrow> (\<exists>b. fst (fetchFeeds sink ids retries) = Inl b))
   \<and> (k \<le> retries
      \<and> (\<forall>n. 1 \<le> n \<and> n \<le> k \<longrightarrow> (\<exists>e. set_fault sink name n = Some e \<and> \<not> is_TypeError e))
      \<and> set_fault sink name (k + 1) = None
      \<longrightarrow> upload sink name content retries
            = (Inr (), sink\<lparr>objects := (objects sink)(name \<mapsto> content)\<rparr>,
               replicate (k + 1) (SinkSet name content)))
   \<and> ((\<forall>n. 1 \<le> n \<and> n \<le> retries + 1 \<longrightarrow> set_fault sink name n \<noteq> None)
      \<longrightarrow> (\<exists>b n. upload sink name content retries
                    = (Inl b, sink, replicate n (SinkSet name content))
               \<and> statusCode b = (case boom_status (cause b) of Some code \<Rightarrow> code | None \<Rightarrow> 500)
               \<and> boom_message b
                   = ''Unable to upload bundle with fileName '' @ [quote] @ name @ [quote]
                     @ '' to storage.''
                     @ (if message (cause b) = [] then [] else '': '' @ message (cause b))))"
proof (intro conjI impI)
  assume "k \<le> retries
      \<and> (\<forall>n. 1 \<le> n \<and> n \<le> k \<longrightarrow>
            (\<exists>e. sink_get sink f n = Inl e \<and> \<not> str_includes (message e) ''No file with name''
                 \<and> \<not> is_TypeError e))
      \<and> sink_get sink f (k + 1) = Inr bytes"
  then show "pretry (run sink f) retries = (Inr bytes, k + 1)"
    by (intro fetch_one_succeeds) blast+
next
  assume a: "\<forall>g \<in> set ids. kf g \<le> retries
          \<and> (\<forall>n. 1 \<le> n \<and> n \<le> kf g \<longrightarrow>
                (\<exists>e. sink_get sink g n = Inl e \<and> \<not> str_includes (message e) ''No file with name''
                     \<and> \<not> is_TypeError e))
          \<and> sink_get sink g (kf g + 1) = Inr (v g)"
  show "fst (fetchFeeds sink ids retries) = Inr (map v ids)"
  proof (rule fetchFeeds_success)
    fix g assume "g \<in> set ids"
    with a have "pretry (run sink g) retries = (Inr (v g), kf g + 1)"
      by (intro fetch_one_succeeds) blast+
    then show "fst (pretry (run sink g) retries) = Inr (v g)" by simp
  qed
next
  assume a: "f \<in> set ids \<and> (\<forall>n. 1 \<le> n \<and> n \<le> retries + 1 \<longrightarrow> (\<exists>e. sink_get sink f n = Inl e))"
  then have "\<exists>e. fst (pretry (run sink f) retries) = Inl e"
    by (intro fetch_one_exhausted) blast
  with a show "\<exists>b. fst (fetchFeeds sink ids retries) = Inl b"
    unfolding fetchFeeds_fails_iff by blast
next
  assume "k \<le> retries
      \<and> (\<forall>n. 1 \<le> n \<and> n \<le> k \<longrightarrow> (\<exists>e. set_fault sink name n = Some e \<and> \<not> is_TypeError e))
      \<and> set_fault sink name (k + 1) = None"
  then show "upload sink name content retries
            = (Inr (), sink\<lparr>objects := (objects sink)(name \<mapsto> content)\<rparr>,
               replicate (k + 1) (SinkSet name content))"
    by (intro upload_succeeds) blast+
next
  assume "\<forall>n. 1 \<le> n \<and> n \<le> retries + 1 \<longrightarrow> set_fault sink name n \<noteq> None"
  then show "\<exists>b n. upload sink name content retries
                    = (Inl b, sink, replicate n (SinkSet name content))
               \<and> statusCode b = (case boom_status (cause b) of Some code \<Rightarrow> code | None \<Rightarrow> 500)
               \<and> boom_message b
                   = ''Unable to upload bundle with fileName '' @ [quote] @ name @ [quote]
                     @ '' to storage.''
                     @ (if message (cause b) = [] then [] else '': '' @ message (cause b))"
    by (intro upload_exhausted) blast
qed

theorem bounded_retry_witness:
  "sink_get (failing_first 2 (Error ''ECONNRESET'') (memory_sink [(''a.json'', ''[1]'')])) ''a.json'' 2
     = Inl (Error ''ECONNRESET'')
   \<and> sink_get (failing_first 2 (Error ''ECONNRESET'') (memory_sink [(''a.json'', ''[1]'')])) ''a.json'' 3
     = Inr ''[1]''
   \<and> pretry (run (failing_first 2 (Error ''ECONNRESET'') (memory_sink [(''a.json'', ''[1]'')])) ''a.json'') 3
     = (Inr ''[1]'', 3)
   \<and> fst (fetchFeeds (failing_first 2 (Error ''ECONNRESET'') (memory_sink [(''a.json'', ''[1]'')]))
            [''a.json''] 3)
     = Inr [''[1]'']
   \<and> (\<exists>b. fst (fetchFeeds (failing_first 4 (Error ''ECONNRESET'') (memory_sink [(''a.json'', ''[1]'')]))
                 [''a.json''] 3) = Inl b)
   \<and> fst (upload (failing_first 2 (Error ''ECONNRESET'') (memory_sink [])) ''x.js'' ''abc'' 3) = Inr ()
   \<and> (\<exists>b. fst (upload (failing_first 4 (Error ''ECONNRESET'') (memory_sink [])) ''x.js'' ''abc'' 3) = Inl b
          \<and> statusCode b = (case boom_status (cause b) of Some code \<Rightarrow> code | None \<Rightarrow> 500))"
proof -
  let ?e = "Error ''ECONNRESET''"
  let ?s2 = "failing_first 2 ?e (memory_sink [(''a.json'', ''[1]'')])"
  let ?s4 = "failing_first 4 ?e (memory_sink [(''a.json'', ''[1]'')])"
  let ?u2 = "failing_first 2 ?e (memory_sink [])"
  let ?u4 = "failing_first 4 ?e (memory_sink [])"
  have get2: "sink_get ?s2 k n = (if n \<le> 2 then Inl ?e else if k = ''a.json'' then Inr ''[1]''
                else Inl (Error (''No file with name '' @ [quote] @ k @ [quote])))" for k n
    by (simp add: sink_get_def failing_first_def memory_sink_def)
  have get4: "sink_get ?s4 k n = (if n \<le> 4 then Inl ?e else if k = ''a.json'' then Inr ''[1]''
                else Inl (Error (''No file with name '' @ [quote] @ k @ [quote])))" for k n
    by (simp add: sink_get_def failing_first_def memory_sink_def)
  have set2: "set_fault ?u2 k n = (if n \<le> 2 then Some ?e else None)" for k n
    by (simp add: failing_first_def memory_sink_def)
  have set4: "set_fault ?u4 k n = (if n \<le> 4 then Some ?e else None)" for k n
    by (simp add: failing_first_def memory_sink_def)
  have c1: "pretry (run ?s2 ''a.json'') 3 = (Inr ''[1]'', 3)"
    using bounded_retry [of 2 3 ?s2 "''a.json''" "''[1]''" "[]" "\<lambda>g. 2" "\<lambda>g. ''[1]''" "''x.js''" "''abc''"]
    by (simp add: get2)
  have c2: "fst (fetchFeeds ?s2 [''a.json''] 3) = Inr [''[1]'']"
    using bounded_retry [of 2 3 ?s2 "''a.json''" "''[1]''" "[''a.json'']" "\<lambda>g. 2" "\<lambda>g. ''[1]''" "''x.js''" "''abc''"]
    by (simp add: get2)
  have c3: "\<exists>b. fst (fetchFeeds ?s4 [''a.json''] 3) = Inl b"
    using bounded_retry [of 2 3 ?s4 "''a.json''" "''[1]''" "[''a.json'']" "\<lambda>g. 2" "\<lambda>g. ''[1]''" "''x.js''" "''abc''"]
    by (simp add: get4)
  have c4: "fst (upload ?u2 ''x.js'' ''abc'' 3) = Inr ()"
    using bounded_retry [of 2 3 ?u2 "''a.json''" "''[1]''" "[]" "\<lambda>g. 2" "\<lambda>g. ''[1]''" "''x.js''" "''abc''"]
    by (simp add: set2)
  have c5: "\<exists>b. fst (upload ?u4 ''x.js'' ''abc'' 3) = Inl b
      \<and> statusCode b = (case boom_status (cause b) of Some code \<Rightarrow> code | None \<Rightarrow> 500)"
    using bounded_retry [of 2 3 ?u4 "''a.json''" "''[1]''" "[]" "\<lambda>g. 2" "\<lambda>g. ''[1]''" "''x.js''" "''abc''"]
    by (auto simp add: set4)
  from c1 c2 c3 c4 c5 show ?thesis by (simp add: get2)
qed

text \<open>
  C4. The sink holds the raw feeds \<open>rawA\<close> and \<open>rawB\<close> under two ids and reads them at the
  first attempt; \<^verbatim>\<open>JSON.parse\<close> reads them as \<open>feedA\<close> and \<open>feedB\<close>, the JS bundler makes
  \<open>content\<close> of the two feeds in that order, and the sink takes the write. Then
  \<^verbatim>\<open>bundleAndUpload\<close> with the type \<^verbatim>\<open>js\<close> returns the file \<open>H.js\<close> and the uri
  \<open>baseUri\<close> followed by the file, \<open>H\<close> being the lowercase hexadecimal SHA-256 digest
  of the UTF-8 bytes of \<open>content\<close>, 64 characters long; afterwards the sink holds
  \<open>content\<close> under the file's name and is otherwise as before. The trace is the calls
  made: the two reads, the two parses, the bundling, the write.
\<close>

theorem bundleAndUpload_end_to_end:
  assumes "objects sink idA = Some rawA" and "get_fault sink idA 1 = None"
    and "objects sink idB = Some rawB" and "get_fault sink idB 1 = None"
    and "JSON_parse p rawA = Inr feedA" and "JSON_parse p rawB = Inr feedB"
    and "bundleJS p [feedA, feedB] = Inr content"
    and "set_fault sink (createHashFromContent content @ ''.js'') 1 = None"
  shows "bundleAndUpload p sink ''js'' (IdArray [idA, idB]) baseUri
     = (Inr \<lparr> file = createHashFromContent content @ ''.js'',
              uri = baseUri @ createHashFromContent content @ ''.js'' \<rparr>,
        sink\<lparr>objects := (objects sink)(createHashFromContent content @ ''.js'' \<mapsto> content)\<rparr>,
        [SinkGet idA, SinkGet idB, JSONparse rawA, JSONparse rawB, BundleJS [feedA, feedB],
         SinkSet (createHashFromContent content @ ''.js'') content])
    \<and> objects (fst (snd (bundleAndUpload p sink ''js'' (IdArray [idA, idB]) baseUri)))
          (createHashFromContent content @ ''.js'')
        = Some content
    \<and> createHashFromContent content = hex_digest (sha256 (utf8 content))
    \<and> length (createHashFromContent content) = 64
    \<and> set (createHashFromContent content) \<subseteq> set ''0123456789abcdef''"
proof -
  let ?v = "\<lambda>f. if f = idA then rawA else rawB"
  have "fetchFeeds sink [idA, idB] 3 = (Inr (map ?v [idA, idB]), map SinkGet [idA, idB])"
    by (rule fetchFeeds_all_first) (use assms(1-4) in \<open>auto simp: sink_get_def\<close>)
  moreover have "rawA = rawB" if "idA = idB" using that assms(1,3) by simp
  ultimately have fetch: "fetchFeeds sink [idA, idB] 3 = (Inr [rawA, rawB], [SinkGet idA, SinkGet idB])"
    by auto
  have parse: "parseFeeds p [rawA, rawB] = (Inr [feedA, feedB], [JSONparse rawA, JSONparse rawB])"
    using assms(5,6) by (simp add: parseFeeds_def)
  have bun: "bundleFeeds p [feedA, feedB] ''js'' = (Inr content, [BundleJS [feedA, feedB]])"
    using assms(7) by (simp add: bundleFeeds_def)
  have up: "upload sink (createHashFromContent content @ ''.js'') content 3
      = (Inr (), sink\<lparr>objects := (objects sink)(createHashFromContent content @ ''.js'' \<mapsto> content)\<rparr>,
         [SinkSet (createHashFromContent content @ ''.js'') content])"
    by (rule upload_first) (rule assms(8))
  have "bundleAndUpload p sink ''js'' (IdArray [idA, idB]) baseUri
     = (Inr \<lparr> file = createHashFromContent content @ ''.js'',
              uri = baseUri @ createHashFromContent content @ ''.js'' \<rparr>,
        sink\<lparr>objects := (objects sink)(createHashFromContent content @ ''.js'' \<mapsto> content)\<rparr>,
        [SinkGet idA, SinkGet idB, JSONparse rawA, JSONparse rawB, BundleJS [feedA, feedB],
         SinkSet (createHashFromContent content @ ''.js'') content])"
    by (simp add: bundleAndUpload_def fetch parse bun up Let_def)
  then show ?thesis
    using createHashFromContent_length createHashFromContent_hex
    by (simp add: createHashFromContent_def [symmetric])
qed

theorem bundleAndUpload_end_to_end_witness:
  "objects (memory_sink [(''feedA.json'', ''[1]''), (''feedB.json'', ''[2]'')]) ''feedA.json'' = Some ''[1]''
   \<and> objects (memory_sink [(''feedA.json'', ''[1]''), (''feedB.json'', ''[2]'')]) ''feedB.json'' = Some ''[2]''
   \<and> bundleJS sample_platform [JArray [JNumber 1], JArray [JNumber 2]] = Inr ''abc''
   \<and> fst (bundleAndUpload sample_platform
        (memory_sink [(''feedA.json'', ''[1]''), (''feedB.json'', ''[2]'')]) ''js''
        (IdArray [''feedA.json'', ''feedB.json'']) ''http://host/bundle/'')
     = Inr \<lparr> file = ''ba7816bf8f01cfea414140de5dae2223b00361a396177a9cb410ff61f20015ad.js'',
              uri = ''http://host/bundle/ba7816bf8f01cfea414140de5dae2223b00361a396177a9cb410ff61f20015ad.js'' \<rparr>
   \<and> objects (fst (snd (bundleAndUpload sample_platform
        (memory_sink [(''feedA.json'', ''[1]''), (''feedB.json'', ''[2]'')]) ''js''
        (IdArray [''feedA.json'', ''feedB.json'']) ''http://host/bundle/'')))
       ''ba7816bf8f01cfea414140de5dae2223b00361a396177a9cb410ff61f20015ad.js''
     = Some ''abc''"
proof -
  let ?s = "memory_sink [(''feedA.json'', ''[1]''), (''feedB.json'', ''[2]'')]"
  have a: "objects ?s ''feedA.json'' = Some ''[1]''" "get_fault ?s ''feedA.json'' 1 = None"
    and b: "objects ?s ''feedB.json'' = Some ''[2]''" "get_fault ?s ''feedB.json'' 1 = None"
    by (simp_all add: memory_sink_def)
  have pa: "JSON_parse sample_platform ''[1]'' = Inr (JArray [JNumber 1])"
    and pb: "JSON_parse sample_platform ''[2]'' = Inr (JArray [JNumber 2])"
    and bj: "bundleJS sample_platform [JArray [JNumber 1], JArray [JNumber 2]] = Inr ''abc''"
    by (simp_all add: sample_platform_def)
  have sf: "set_fault ?s (createHashFromContent ''abc'' @ ''.js'') 1 = None"
    by (simp add: memory_sink_def)
  from bundleAndUpload_end_to_end [OF a b pa pb bj sf, of "''http://host/bundle/''"] a(1) b(1) bj
  show ?thesis by (simp add: createHashFromContent_abc)
qed




text \<open>
  C6. \<^verbatim>\<open>validateFeeds\<close> rejects the empty list and every list with an entry that is not a
  string, and it accepts a list exactly when the list has 1 to 100 entries that are all
  strings and not empty; it then returns these strings. \<^verbatim>\<open>parseBody\<close> rejects a body
  that is empty or blank, granted that \<^verbatim>\<open>JSON.parse\<close> throws for blank text (spaces, tabs
  and line breaks only), as the JSON grammar has it. Every failure of either function
  is a classified failure of status 400. Neither function is given the sink: what
  they reject is rejected without any access to the sink.
\<close>

theorem input_validation:
  "(\<exists>b. validateFeeds p (JArray []) = Inl b \<and> statusCode b = 400)
   \<and> ((\<exists>v \<in> set items. \<forall>s. v \<noteq> JString s)
      \<longrightarrow> (\<exists>b. validateFeeds p (JArray items) = Inl b \<and> statusCode b = 400))
   \<and> (validateFeeds p (JArray items) = Inr ids
      \<longleftrightarrow> 1 \<le> length items \<and> length items \<le> 100
          \<and> (\<forall>v \<in> set items. \<exists>s. v = JString s \<and> s \<noteq> []) \<and> ids = map string_of items)
   \<and> (validateFeeds p feeds = Inl b
      \<longrightarrow> statusCode b = 400 \<and> prefix ''Invalid feed data given in POST-body.'' (boom_message b))
   \<and> ((\<forall>text. (\<forall>c \<in> set text. c \<in> {CHR '' '', CHR 0x09, CHR 0x0A, CHR 0x0D})
              \<longrightarrow> (\<exists>e. JSON_parse p text = Inl e))
        \<and> (\<forall>c \<in> set body. c \<in> {CHR '' '', CHR 0x09, CHR 0x0A, CHR 0x0D})
      \<longrightarrow> (\<exists>b'. parseBody p body = Inl b' \<and> statusCode b' = 400
                 \<and> prefix ''No feed data given in POST-body.'' (boom_message b')))
   \<and> (parseBody p body = Inl b
      \<longrightarrow> statusCode b = 400 \<and> prefix ''No feed data given in POST-body.'' (boom_message b))"
proof (intro conjI impI)
  show "\<exists>b. validateFeeds p (JArray []) = Inl b \<and> statusCode b = 400"
    by (rule validateFeeds_array_rejects) simp
next
  assume "\<exists>v \<in> set items. \<forall>s. v \<noteq> JString s"
  then show "\<exists>b. validateFeeds p (JArray items) = Inl b \<and> statusCode b = 400"
    by (intro validateFeeds_array_rejects) blast
next
  show "validateFeeds p (JArray items) = Inr ids
      \<longleftrightarrow> 1 \<le> length items \<and> length items \<le> 100
          \<and> (\<forall>v \<in> set items. \<exists>s. v = JString s \<and> s \<noteq> []) \<and> ids = map string_of items"
    by (rule validateFeeds_array_accepts_iff)
next
  assume "validateFeeds p feeds = Inl b"
  from validateFeeds_failure [OF this]
  show "statusCode b = 400" and "prefix ''Invalid feed data given in POST-body.'' (boom_message b)"
    by simp_all
next
  assume a: "(\<forall>text. (\<forall>c \<in> set text. c \<in> {CHR '' '', CHR 0x09, CHR 0x0A, CHR 0x0D})
              \<longrightarrow> (\<exists>e. JSON_parse p text = Inl e))
        \<and> (\<forall>c \<in> set body. c \<in> {CHR '' '', CHR 0x09, CHR 0x0A, CHR 0x0D})"
  then obtain e where "JSON_parse p body = Inl e" by blast
  then obtain b' where b': "parseBody p body = Inl b'" by (simp add: parseBody_def)
  with parseBody_failure [OF b']
  show "\<exists>b'. parseBody p body = Inl b' \<and> statusCode b' = 400
                 \<and> prefix ''No feed data given in POST-body.'' (boom_message b')"
    by blast
next
  assume "parseBody p body = Inl b"
  from parseBody_failure [OF this]
  show "statusCode b = 400" and "prefix ''No feed data given in POST-body.'' (boom_message b)"
    by simp_all
qed

theorem input_validation_witness:
  "(\<exists>b. validateFeeds sample_platform (JArray []) = Inl b \<and> statusCode b = 400)
   \<and> (\<exists>b. validateFeeds sample_platform (JArray [JString ''a.json'', JNumber 7]) = Inl b
          \<and> statusCode b = 400)
   \<and> validateFeeds sample_platform (JArray [JString ''a.json'', JString ''b.json''])
       = Inr [''a.json'', ''b.json'']
   \<and> (\<exists>b. parseBody sample_platform [] = Inl b \<and> statusCode b = 400)
   \<and> (\<exists>b. parseBody sample_platform ''  '' = Inl b \<and> statusCode b = 400)"
proof -
  let ?bad = "[JString ''a.json'', JNumber 7]"
  let ?good = "[JString ''a.json'', JString ''b.json'']"
  let ?b = "boomify (ValidationError ''value is not a list of ids'') (Some 400)
              ''Invalid feed data given in POST-body.''"
  have blank: "\<forall>text. (\<forall>c \<in> set text. c \<in> {CHR '' '', CHR 0x09, CHR 0x0A, CHR 0x0D})
              \<longrightarrow> (\<exists>e. JSON_parse sample_platform text = Inl e)"
    by (auto simp: sample_platform_def)
  have bad: "\<exists>v \<in> set ?bad. \<forall>s. v \<noteq> JString s" by simp
  have c1: "\<exists>b. validateFeeds sample_platform (JArray []) = Inl b \<and> statusCode b = 400"
    and c2: "\<exists>b. validateFeeds sample_platform (JArray ?bad) = Inl b \<and> statusCode b = 400"
    using input_validation [of sample_platform ?bad "[]" JNull ?b "[]"] bad by blast+
  have c3: "validateFeeds sample_platform (JArray ?good) = Inr [''a.json'', ''b.json'']"
    using input_validation [of sample_platform ?good "[''a.json'', ''b.json'']" JNull ?b "[]"]
    by simp
  have c4: "\<exists>b. parseBody sample_platform [] = Inl b \<and> statusCode b = 400"
    using input_validation [of sample_platform ?good "[''a.json'', ''b.json'']" JNull ?b "[]"] blank
    by auto
  have c5: "\<exists>b. parseBody sample_platform ''  '' = Inl b \<and> statusCode b = 400"
    using input_validation [of sample_platform ?good "[''a.json'', ''b.json'']" JNull ?b "''  ''"] blank
    by auto
  from c1 c2 c3 c4 c5 show ?thesis by blast
qed

text \<open>
  C7 as stated fails in what it says of the failure. The CSS bundler below throws a
  \<^verbatim>\<open>SyntaxError\<close> with the message \<^verbatim>\<open>Unknown word\<close>. The message of the failure is not
  \<^verbatim>\<open>Unable to bundle feeds as CSS.\<close>: the bundler's message follows it. And the failure
  is the bundler's own error, decorated: it is still the \<^verbatim>\<open>SyntaxError\<close> of the bundler.
\<close>

theorem bundleFeeds_failure_counterexample:
  "bundleCSS sample_platform [JArray [JNumber 1]] = Inl (SyntaxError ''Unknown word'')
   \<and> fst (bundleFeeds sample_platform [JArray [JNumber 1]] ''css'')
       = Inl \<lparr> statusCode = 500,
               boom_message = ''Unable to bundle feeds as CSS.: Unknown word'',
               cause = SyntaxError ''Unknown word'' \<rparr>
   \<and> ''Unable to bundle feeds as CSS.: Unknown word'' \<noteq> ''Unable to bundle feeds as CSS.''"
  by (simp add: bundleFeeds_def sample_platform_def boomify_def)

text \<open>
  C7, amended. \<^verbatim>\<open>bundleFeeds\<close> calls the CSS bundler when the type is \<^verbatim>\<open>css\<close> and the JS
  bundler for every other type, and nothing else; what the bundler returns is returned.
  What the bundler throws comes out as a classified failure whose message is
  \<^verbatim>\<open>Unable to bundle feeds as CSS.\<close>, or \<^verbatim>\<open>Unable to bundle feeds as JS.\<close>, followed, when
  the bundler's error has a message, by a colon, a space and that message. The failure
  is the bundler's error decorated by Boom: the error as it was, its class included,
  is the cause of the failure, so the bundler's error type stays visible to the caller.
  The status is 500, or the status of the bundler's error when that is a Boom error
  already.
\<close>

theorem bundleFeeds_dispatch:
  "snd (bundleFeeds p feeds type) = (if type = ''css'' then [BundleCSS feeds] else [BundleJS feeds])
   \<and> (type = ''css'' \<and> bundleCSS p feeds = Inr content \<longrightarrow> fst (bundleFeeds p feeds type) = Inr content)
   \<and> (type \<noteq> ''css'' \<and> bundleJS p feeds = Inr content \<longrightarrow> fst (bundleFeeds p feeds type) = Inr content)
   \<and> (type = ''css'' \<and> bundleCSS p feeds = Inl err
      \<longrightarrow> fst (bundleFeeds p feeds type)
            = Inl \<lparr> statusCode = (case boom_status err of Some code \<Rightarrow> code | None \<Rightarrow> 500),
                    boom_message = ''Unable to bundle feeds as CSS.''
                      @ (if message err = [] then [] else '': '' @ message err),
                    cause = err \<rparr>)
   \<and> (type \<noteq> ''css'' \<and> bundleJS p feeds = Inl err
      \<longrightarrow> fst (bundleFeeds p feeds type)
            = Inl \<lparr> statusCode = (case boom_status err of Some code \<Rightarrow> code | None \<Rightarrow> 500),
                    boom_message = ''Unable to bundle feeds as JS.''
                      @ (if message err = [] then [] else '': '' @ message err),
                    cause = err \<rparr>)"
  by (auto simp: bundleFeeds_def boomify_def split: sum.splits)

theorem bundleFeeds_dispatch_witness:
  "bundleFeeds sample_platform [JArray [JNumber 1]] ''css''
     = (Inl \<lparr> statusCode = 500, boom_message = ''Unable to bundle feeds as CSS.: Unknown word'',
              cause = SyntaxError ''Unknown word'' \<rparr>,
        [BundleCSS [JArray [JNumber 1]]])
   \<and> bundleFeeds sample_platform [JArray [JNumber 1]] ''js''
     = (Inr ''abc'', [BundleJS [JArray [JNumber 1]]])
   \<and> bundleFeeds sample_platform [JArray [JNumber 1]] ''png''
     = (Inr ''abc'', [BundleJS [JArray [JNumber 1]]])
   \<and> fst (bundleFeeds
            (sample_platform\<lparr>bundleJS := \<lambda>feeds. Inl (IsBoom 403 (Error ''Cannot find module''))\<rparr>)
            [JArray [JNumber 1]] ''js'')
     = Inl \<lparr> statusCode = 403, boom_message = ''Unable to bundle feeds as JS.: Cannot find module'',
             cause = IsBoom 403 (Error ''Cannot find module'') \<rparr>"
proof -
  let ?f = "[JArray [JNumber 1]]"
  let ?q = "sample_platform\<lparr>bundleJS := \<lambda>feeds. Inl (IsBoom 403 (Error ''Cannot find module''))\<rparr>"
  have css: "bundleCSS sample_platform ?f = Inl (SyntaxError ''Unknown word'')"
    and js: "bundleJS sample_platform ?f = Inr ''abc''"
    and jsq: "bundleJS ?q ?f = Inl (IsBoom 403 (Error ''Cannot find module''))"
    by (simp_all add: sample_platform_def)
  have c1: "bundleFeeds sample_platform ?f ''css''
     = (Inl \<lparr> statusCode = 500, boom_message = ''Unable to bundle feeds as CSS.: Unknown word'',
              cause = SyntaxError ''Unknown word'' \<rparr>, [BundleCSS ?f])"
    using bundleFeeds_dispatch [of sample_platform ?f "''css''" "[]" "SyntaxError ''Unknown word''"] css
    by (simp add: prod_eq_iff)
  have c2: "bundleFeeds sample_platform ?f ''js'' = (Inr ''abc'', [BundleJS ?f])"
    using bundleFeeds_dispatch [of sample_platform ?f "''js''" "''abc''" "Error []"] js
    by (simp add: prod_eq_iff)
  have c3: "bundleFeeds sample_platform ?f ''png'' = (Inr ''abc'', [BundleJS ?f])"
    using bundleFeeds_dispatch [of sample_platform ?f "''png''" "''abc''" "Error []"] js
    by (simp add: prod_eq_iff)
  have c4: "fst (bundleFeeds ?q ?f ''js'')
     = Inl \<lparr> statusCode = 403, boom_message = ''Unable to bundle feeds as JS.: Cannot find module'',
             cause = IsBoom 403 (Error ''Cannot find module'') \<rparr>"
    using bundleFeeds_dispatch [of ?q ?f "''js''" "[]" "IsBoom 403 (Error ''Cannot find module'')"] jsq
    by simp
  from c1 c2 c3 c4 show ?thesis by simp
qed

text \<open>
  C8. With an empty array of ids, or a value that is not an array, \<^verbatim>\<open>bundleAndUpload\<close>
  throws the error of the assertion: the sink is as it was and no call was made to the
  sink, to \<^verbatim>\<open>JSON.parse\<close> or to a bundler. With an array that is not empty it never throws
  an error that is not classified, so not the assertion's.
\<close>

theorem bundleAndUpload_asserts_feed_ids:
  "((feedIds = IdArray [] \<or> (\<exists>shown. feedIds = NotArray shown))
      \<longrightarrow> (\<exists>msg. bundleAndUpload p sink type feedIds baseUri
                   = (Inl (Raw (AssertionError msg)), sink, [])))
   \<and> ((\<exists>ids. feedIds = IdArray ids \<and> ids \<noteq> [])
      \<longrightarrow> (\<forall>e. fst (bundleAndUpload p sink type feedIds baseUri) \<noteq> Inl (Raw e)))"
proof (intro conjI impI)
  assume "feedIds = IdArray [] \<or> (\<exists>shown. feedIds = NotArray shown)"
  then show "\<exists>msg. bundleAndUpload p sink type feedIds baseUri
                   = (Inl (Raw (AssertionError msg)), sink, [])"
    by (auto simp: bundleAndUpload_def)
next
  assume "\<exists>ids. feedIds = IdArray ids \<and> ids \<noteq> []"
  then show "\<forall>e. fst (bundleAndUpload p sink type feedIds baseUri) \<noteq> Inl (Raw e)"
    by (auto simp: bundleAndUpload_def Let_def split: prod.splits sum.splits)
qed

theorem bundleAndUpload_asserts_feed_ids_witness:
  "bundleAndUpload sample_platform (memory_sink [(''feedA.json'', ''[1]'')]) ''js'' (IdArray [])
       ''http://host/bundle/''
     = (Inl (Raw (AssertionError ''Expected at least 1 feed id, but got '')),
        memory_sink [(''feedA.json'', ''[1]'')], [])
   \<and> bundleAndUpload sample_platform (memory_sink [(''feedA.json'', ''[1]'')]) ''js''
       (NotArray ''undefined'') ''http://host/bundle/''
     = (Inl (Raw (AssertionError ''Expected at least 1 feed id, but got undefined'')),
        memory_sink [(''feedA.json'', ''[1]'')], [])
   \<and> fst (bundleAndUpload sample_platform (memory_sink []) ''js''
       (IdArray [''feedA.json'']) ''http://host/bundle/'')
     \<noteq> Inl (Raw (AssertionError ''Expected at least 1 feed id, but got ''))"
proof -
  let ?s = "memory_sink [(''feedA.json'', ''[1]'')]"
  have e1: "bundleAndUpload sample_platform ?s ''js'' (IdArray []) ''http://host/bundle/''
     = (Inl (Raw (AssertionError ''Expected at least 1 feed id, but got '')), ?s, [])"
    using bundleAndUpload_asserts_feed_ids
      [of "IdArray []" sample_platform ?s "''js''" "''http://host/bundle/''"]
    by (simp add: bundleAndUpload_def)
  have e2: "bundleAndUpload sample_platform ?s ''js'' (NotArray ''undefined'') ''http://host/bundle/''
     = (Inl (Raw (AssertionError ''Expected at least 1 feed id, but got undefined'')), ?s, [])"
    using bundleAndUpload_asserts_feed_ids
      [of "NotArray ''undefined''" sample_platform ?s "''js''" "''http://host/bundle/''"]
    by (simp add: bundleAndUpload_def)
  have e3: "fst (bundleAndUpload sample_platform (memory_sink []) ''js''
       (IdArray [''feedA.json'']) ''http://host/bundle/'')
     \<noteq> Inl (Raw (AssertionError ''Expected at least 1 feed id, but got ''))"
    using bundleAndUpload_asserts_feed_ids
      [of "IdArray [''feedA.json'']" sample_platform "memory_sink []" "''js''" "''http://host/bundle/''"]
    by simp
  from e1 e2 e3 show ?thesis by simp
qed

text \<open>
  C9 as stated fails: the file's extension is the type that was given, whatever it is.
  With the type \<^verbatim>\<open>png\<close> the JS bundler is used, the call succeeds and the file ends in
  \<^verbatim>\<open>.png\<close>.
\<close>

theorem bundleAndUpload_file_counterexample:
  "fst (bundleAndUpload sample_platform (memory_sink [(''feedA.json'', ''[1]'')]) ''png''
          (IdArray [''feedA.json'']) ''http://host/bundle/'')
     = Inr \<lparr> file = ''ba7816bf8f01cfea414140de5dae2223b00361a396177a9cb410ff61f20015ad.png'',
              uri = ''http://host/bundle/ba7816bf8f01cfea414140de5dae2223b00361a396177a9cb410ff61f20015ad.png'' \<rparr>
   \<and> \<not> suffix ''.js'' ''ba7816bf8f01cfea414140de5dae2223b00361a396177a9cb410ff61f20015ad.png''
   \<and> \<not> suffix ''.css'' ''ba7816bf8f01cfea414140de5dae2223b00361a396177a9cb410ff61f20015ad.png''"
proof -
  let ?s = "memory_sink [(''feedA.json'', ''[1]'')]"
  have "fetchFeeds ?s [''feedA.json''] 3 = (Inr (map (\<lambda>f. ''[1]'') [''feedA.json'']), map SinkGet [''feedA.json''])"
    by (rule fetchFeeds_all_first) (simp add: sink_get_def memory_sink_def)
  then have fetch: "fetchFeeds ?s [''feedA.json''] 3 = (Inr [''[1]''], [SinkGet ''feedA.json''])" by simp
  have parse: "parseFeeds sample_platform [''[1]''] = (Inr [JArray [JNumber 1]], [JSONparse ''[1]''])"
    by (simp add: parseFeeds_def sample_platform_def)
  have bun: "bundleFeeds sample_platform [JArray [JNumber 1]] ''png''
      = (Inr ''abc'', [BundleJS [JArray [JNumber 1]]])"
    by (simp add: bundleFeeds_def sample_platform_def)
  have up: "upload ?s (createHashFromContent ''abc'' @ ''.png'') ''abc'' 3
      = (Inr (), ?s\<lparr>objects := (objects ?s)(createHashFromContent ''abc'' @ ''.png'' \<mapsto> ''abc'')\<rparr>,
         [SinkSet (createHashFromContent ''abc'' @ ''.png'') ''abc''])"
    by (rule upload_first) (simp add: memory_sink_def)
  have "fst (bundleAndUpload sample_platform ?s ''png'' (IdArray [''feedA.json'']) ''http://host/bundle/'')
     = Inr \<lparr> file = createHashFromContent ''abc'' @ ''.png'',
              uri = ''http://host/bundle/'' @ createHashFromContent ''abc'' @ ''.png'' \<rparr>"
    by (simp add: bundleAndUpload_def fetch parse bun up Let_def)
  then show ?thesis by (simp add: suffix_to_prefix createHashFromContent_abc)
qed

text \<open>
  C9, amended. When \<^verbatim>\<open>bundleAndUpload\<close> succeeds, the file it returns is the lowercase
  hexadecimal SHA-256 digest (64 characters) of the bytes that the bundler of the type
  produced, then a dot, then the type that was given: \<^verbatim>\<open>js\<close> or \<^verbatim>\<open>css\<close> when the type is
  one of the two. The uri is the base uri followed by the file.
\<close>

theorem bundleAndUpload_file_name:
  assumes "fst (bundleAndUpload p sink type feedIds baseUri) = Inr r"
  shows "\<exists>feeds content.
           (if type = ''css'' then bundleCSS p feeds else bundleJS p feeds) = Inr content
         \<and> file r = createHashFromContent content @ ''.'' @ type
         \<and> uri r = baseUri @ file r
         \<and> createHashFromContent content = hex_digest (sha256 (utf8 content))
         \<and> length (createHashFromContent content) = 64
         \<and> set (createHashFromContent content) \<subseteq> set ''0123456789abcdef''"
proof -
  from bundleAndUpload_success [OF assms] obtain feeds content where
    b: "fst (bundleFeeds p feeds type) = Inr content"
    and r: "r = \<lparr> file = createHashFromContent content @ ''.'' @ type,
                  uri = baseUri @ createHashFromContent content @ ''.'' @ type \<rparr>"
    by blast
  from b have "(if type = ''css'' then bundleCSS p feeds else bundleJS p feeds) = Inr content"
    by (auto simp: bundleFeeds_def split: if_splits sum.splits)
  moreover from r have "file r = createHashFromContent content @ ''.'' @ type"
    and "uri r = baseUri @ file r" by simp_all
  moreover have "createHashFromContent content = hex_digest (sha256 (utf8 content))"
    by (simp add: createHashFromContent_def)
  ultimately show ?thesis
    using createHashFromContent_length createHashFromContent_hex by blast
qed

theorem bundleAndUpload_file_name_witness:
  "fst (bundleAndUpload sample_platform (memory_sink [(''feedA.json'', ''[1]'')]) ''js''
          (IdArray [''feedA.json'']) ''http://host/bundle/'')
     = Inr \<lparr> file = ''ba7816bf8f01cfea414140de5dae2223b00361a396177a9cb410ff61f20015ad.js'',
              uri = ''http://host/bundle/ba7816bf8f01cfea414140de5dae2223b00361a396177a9cb410ff61f20015ad.js'' \<rparr>
   \<and> (\<exists>feeds content. bundleJS sample_platform feeds = Inr content
         \<and> ''ba7816bf8f01cfea414140de5dae2223b00361a396177a9cb410ff61f20015ad.js'' = createHashFromContent content @ ''.js''
         \<and> length (createHashFromContent content) = 64)"
proof -
  let ?s = "memory_sink [(''feedA.json'', ''[1]'')]"
  let ?r = "\<lparr> file = createHashFromContent ''abc'' @ ''.js'',
              uri = ''http://host/bundle/'' @ createHashFromContent ''abc'' @ ''.js'' \<rparr>"
  have "fetchFeeds ?s [''feedA.json''] 3 = (Inr (map (\<lambda>f. ''[1]'') [''feedA.json'']), map SinkGet [''feedA.json''])"
    by (rule fetchFeeds_all_first) (simp add: sink_get_def memory_sink_def)
  then have fetch: "fetchFeeds ?s [''feedA.json''] 3 = (Inr [''[1]''], [SinkGet ''feedA.json''])" by simp
  have parse: "parseFeeds sample_platform [''[1]''] = (Inr [JArray [JNumber 1]], [JSONparse ''[1]''])"
    by (simp add: parseFeeds_def sample_platform_def)
  have bun: "bundleFeeds sample_platform [JArray [JNumber 1]] ''js''
      = (Inr ''abc'', [BundleJS [JArray [JNumber 1]]])"
    by (simp add: bundleFeeds_def sample_platform_def)
  have up: "upload ?s (createHashFromContent ''abc'' @ ''.js'') ''abc'' 3
      = (Inr (), ?s\<lparr>objects := (objects ?s)(createHashFromContent ''abc'' @ ''.js'' \<mapsto> ''abc'')\<rparr>,
         [SinkSet (createHashFromContent ''abc'' @ ''.js'') ''abc''])"
    by (rule upload_first) (simp add: memory_sink_def)
  have h: "fst (bundleAndUpload sample_platform ?s ''js'' (IdArray [''feedA.json'']) ''http://host/bundle/'') = Inr ?r"
    by (simp add: bundleAndUpload_def fetch parse bun up Let_def)
  from bundleAndUpload_file_name [OF h]
  obtain feeds content where c: "bundleJS sample_platform feeds = Inr content"
    "file ?r = createHashFromContent content @ ''.'' @ ''js''"
    "length (createHashFromContent content) = 64"
    by auto
  from c(2) have "''ba7816bf8f01cfea414140de5dae2223b00361a396177a9cb410ff61f20015ad.js'' = createHashFromContent content @ ''.js''"
    by (simp add: createHashFromContent_abc)
  with c(1,3) h show ?thesis by (auto simp: createHashFromContent_abc)
qed



end
